theory Spec2Isabelle
  imports Main
begin

section \<open>Data model\<close>

text \<open>
  The Go package keeps one \<^verbatim>\<open>Client\<close> struct (an HTTP handle, a port and an API token)
  and talks to a local HTTP server. The handle belongs to the HTTP library and is never
  assigned after \<^verbatim>\<open>New\<close>; the model keeps the two fields the package itself reads.
  Go's \<^verbatim>\<open>int\<close> values that occur here (ports, the page counter, the retry counter) start
  non-negative and only grow by one, far below the machine bound, so they are naturals.
\<close>

record Client =
  port :: nat
  apiToken :: string

text \<open>
  Of the \<^verbatim>\<open>Note\<close> struct the methods below read the identifier and the author only; the
  list methods never look inside the items they collect, so their element type is a
  type parameter (instantiate it with the entity to get the Go signature).
\<close>

record Note =
  ID :: string
  ParentID :: string
  Title :: string
  Author :: string

text \<open>A decoded collection page: \<^verbatim>\<open>notesResult\<close>, \<^verbatim>\<open>tagsResult\<close>, \<^verbatim>\<open>foldersResult\<close>, \<^verbatim>\<open>searchResult\<close>.\<close>

record 'a Page =
  Items :: "'a list"
  HasMore :: bool

text \<open>The anonymous result struct of \<^verbatim>\<open>getApiToken\<close>.\<close>

record CheckResult =
  Status :: string
  ApiToken :: string

text \<open>
  Go errors. \<^verbatim>\<open>Transport\<close> is an error handed back by the HTTP library (connection
  refused, timeout, undecodable body); \<^verbatim>\<open>Errorf\<close> is an error the package builds itself
  with \<^verbatim>\<open>fmt.Errorf\<close> or \<^verbatim>\<open>errors.New\<close>, carrying its message. A nil error is \<open>None\<close>.
\<close>

datatype error = Transport string | Errorf string

text \<open>
  What the package reads of a response: the status code, the text of \<^verbatim>\<open>resp.Dump()\<close> and
  the text that \<^verbatim>\<open>%s\<close> prints for \<^verbatim>\<open>resp.Error()\<close>.
\<close>

record Response =
  StatusCode :: nat
  Dump :: string
  ErrorText :: string

text \<open>
  Modelled from the spec: the HTTP client library is not part of the repository. The
  spec's "HTTP success status" and "HTTP error status" are the library's
  \<^verbatim>\<open>IsSuccess\<close> (a code from 200 to 299) and \<^verbatim>\<open>IsError\<close> (a code of 400 or more); a code
  outside both ranges is neither.
\<close>

definition IsSuccess :: "Response \<Rightarrow> bool" where
  "IsSuccess resp = (199 < StatusCode resp \<and> StatusCode resp < 300)"

definition IsError :: "Response \<Rightarrow> bool" where
  "IsError resp = (399 < StatusCode resp)"

text \<open>
  One round trip as the caller sees it: \<^verbatim>\<open>resp, err := ...\<close> together with the value that
  the variable registered by \<^verbatim>\<open>SetResult\<close>/\<^verbatim>\<open>SetError\<close> holds afterwards.
  \<open>Failure\<close> is \<^verbatim>\<open>err != nil\<close>.
\<close>

datatype 'b outcome = Failure error 'b | Reply Response 'b

datatype body = NoBody | BodyParams "string \<rightharpoonup> string" | BodyJsonString string

text \<open>
  A request: the verb, the target \<^verbatim>\<open>http://localhost:<Port><Path>\<close> (the path still with its
  \<^verbatim>\<open>{name}\<close> placeholders), the path parameters, the query parameters and the body.
\<close>

record Request =
  Method :: string
  Port :: nat
  Path :: string
  PathParams :: "string \<rightharpoonup> string"
  QueryParams :: "string \<rightharpoonup> string"
  Body :: body

text \<open>What a call does to the outside world, oldest first: requests and sleeps (in seconds).\<close>

datatype event = Sent Request | Slept nat

text \<open>
  The result of a method call in state-passing style: the receiver \<^verbatim>\<open>*c\<close> after the call,
  the events of the call, the returned value and the returned error.
\<close>

record 'v Ret =
  recv :: Client
  trace :: "event list"
  ret :: 'v
  err :: "error option"

definition joplinMinPortNum :: nat where "joplinMinPortNum = 41184"
definition joplinMaxPortNum :: nat where "joplinMaxPortNum = 41194"
definition retriesGetApiToken :: nat where "retriesGetApiToken = 20"

section \<open>Library functions the package calls\<close>

text \<open>\<^verbatim>\<open>strconv.Itoa\<close> on a non-negative number: its decimal digits.\<close>

fun Itoa :: "nat \<Rightarrow> string" where
  "Itoa n = (if n < 10 then [''0123456789'' ! n]
             else Itoa (n div 10) @ [''0123456789'' ! (n mod 10)])"

declare Itoa.simps [simp del]

text \<open>
  \<^verbatim>\<open>strings.ToUpper\<close>. On a string of ASCII bytes it maps \<^verbatim>\<open>a\<close>..\<^verbatim>\<open>z\<close> to \<^verbatim>\<open>A\<close>..\<^verbatim>\<open>Z\<close> byte by
  byte; otherwise it maps every rune through the Unicode tables, which the model takes
  as the parameter \<open>unicodeUpper\<close>.
\<close>

definition upperByte :: "char \<Rightarrow> char" where
  "upperByte ch = (if (97::nat) \<le> of_char ch \<and> of_char ch \<le> (122::nat)
                   then char_of (of_char ch - (32::nat)) else ch)"

definition ToUpper :: "(string \<Rightarrow> string) \<Rightarrow> string \<Rightarrow> string" where
  "ToUpper unicodeUpper s =
     (if list_all (\<lambda>ch. (of_char ch :: nat) < 128) s then map upperByte s
      else unicodeUpper s)"

section \<open>Response handling shared by the methods\<close>

definition errorResponse :: "Response \<Rightarrow> error" where
  "errorResponse resp = Errorf (''got error response, raw dump:'' @ [CHR 0x0A] @ Dump resp)"

definition errorResponseText :: "Response \<Rightarrow> error" where
  "errorResponseText resp =
     Errorf (''got error response, raw dump:'' @ [CHR 0x0A] @ ErrorText resp)"

definition unexpectedResponse :: "Response \<Rightarrow> error" where
  "unexpectedResponse resp =
     Errorf (''got unexpected response, raw dump:'' @ [CHR 0x0A] @ Dump resp)"

text \<open>\<^verbatim>\<open>fmt.Errorf("could not find <what> '%s", id)\<close>: the 404 branch of the methods that have one.\<close>

definition couldNotFind :: "string \<Rightarrow> string \<Rightarrow> error" where
  "couldNotFind what ident = Errorf (''could not find '' @ what @ '' '' @ [CHR 0x27] @ ident)"

definition notFoundOr :: "error \<Rightarrow> Response \<Rightarrow> error" where
  "notFoundOr e resp = (if StatusCode resp = 404 then e else errorResponse resp)"

text \<open>
  Every single-request method ends in the same four-way test: \<^verbatim>\<open>err != nil\<close>, then
  \<^verbatim>\<open>resp.IsError()\<close> (where the methods differ: \<open>onError\<close>), then \<^verbatim>\<open>resp.IsSuccess()\<close>,
  then the "unexpected response" fall-through. \<open>answer\<close> is the error that comes out;
  \<open>held\<close> is the value left in the result variable.
\<close>

definition answer :: "(Response \<Rightarrow> error) \<Rightarrow> 'b outcome \<Rightarrow> error option" where
  "answer onError out =
     (case out of
        Failure e _ \<Rightarrow> Some e
      | Reply resp _ \<Rightarrow>
          if IsError resp then Some (onError resp)
          else if IsSuccess resp then None
          else Some (unexpectedResponse resp))"

definition held :: "'b outcome \<Rightarrow> 'b" where
  "held out = (case out of Failure _ v \<Rightarrow> v | Reply _ v \<Rightarrow> v)"

section \<open>Single-request methods\<close>

definition GetTag :: "Client \<Rightarrow> string \<Rightarrow> string \<Rightarrow> 't outcome \<Rightarrow> 't Ret" where
  "GetTag c ident fields' out =
     \<lparr>recv = c,
      trace = [Sent \<lparr>Method = ''GET'', Port = port c, Path = ''/tags/{id}'',
                     PathParams = [''id'' \<mapsto> ident],
                     QueryParams = [''token'' \<mapsto> apiToken c, ''fields'' \<mapsto> fields'],
                     Body = NoBody\<rparr>],
      ret = held out,
      err = answer (notFoundOr (couldNotFind ''tag with IDs'' ident)) out\<rparr>"

definition CreateTag :: "Client \<Rightarrow> string \<Rightarrow> unit outcome \<Rightarrow> unit Ret" where
  "CreateTag c title out =
     \<lparr>recv = c,
      trace = [Sent \<lparr>Method = ''POST'', Port = port c, Path = ''/tags'',
                     PathParams = Map.empty,
                     QueryParams = [''token'' \<mapsto> apiToken c],
                     Body = BodyParams [''title'' \<mapsto> title]\<rparr>],
      ret = (),
      err = answer (notFoundOr (Errorf ''could not create tag'')) out\<rparr>"

definition GetNote :: "Client \<Rightarrow> string \<Rightarrow> string \<Rightarrow> 'n outcome \<Rightarrow> 'n Ret" where
  "GetNote c ident fields' out =
     \<lparr>recv = c,
      trace = [Sent \<lparr>Method = ''GET'', Port = port c, Path = ''/notes/{id}'',
                     PathParams = [''id'' \<mapsto> ident],
                     QueryParams = [''token'' \<mapsto> apiToken c, ''fields'' \<mapsto> fields'],
                     Body = NoBody\<rparr>],
      ret = held out,
      err = answer (notFoundOr (couldNotFind ''note with ID'' ident)) out\<rparr>"

definition UpdateNote :: "Client \<Rightarrow> string \<Rightarrow> string \<Rightarrow> string \<Rightarrow> unit outcome \<Rightarrow> unit Ret" where
  "UpdateNote c ident title parent_id out =
     \<lparr>recv = c,
      trace = [Sent \<lparr>Method = ''PUT'', Port = port c, Path = ''/notes/{id}'',
                     PathParams = [''id'' \<mapsto> ident],
                     QueryParams = [''token'' \<mapsto> apiToken c],
                     Body = BodyParams [''parent_id'' \<mapsto> parent_id, ''title'' \<mapsto> title]\<rparr>],
      ret = (),
      err = answer (notFoundOr (couldNotFind ''note with ID'' ident)) out\<rparr>"

definition GetFolder :: "Client \<Rightarrow> string \<Rightarrow> string \<Rightarrow> 'f outcome \<Rightarrow> 'f Ret" where
  "GetFolder c ident fields' out =
     \<lparr>recv = c,
      trace = [Sent \<lparr>Method = ''GET'', Port = port c, Path = ''/folders/{id}'',
                     PathParams = [''id'' \<mapsto> ident],
                     QueryParams = [''token'' \<mapsto> apiToken c, ''fields'' \<mapsto> fields'],
                     Body = NoBody\<rparr>],
      ret = held out,
      err = answer (notFoundOr (couldNotFind ''folder with ID'' ident)) out\<rparr>"

definition DeleteTag :: "Client \<Rightarrow> string \<Rightarrow> unit outcome \<Rightarrow> unit Ret" where
  "DeleteTag c ident out =
     \<lparr>recv = c,
      trace = [Sent \<lparr>Method = ''DELETE'', Port = port c, Path = ''/tags/{id}'',
                     PathParams = [''id'' \<mapsto> ident],
                     QueryParams = [''token'' \<mapsto> apiToken c],
                     Body = NoBody\<rparr>],
      ret = (),
      err = answer errorResponse out\<rparr>"

definition DeleteTagFromNote :: "Client \<Rightarrow> string \<Rightarrow> string \<Rightarrow> unit outcome \<Rightarrow> unit Ret" where
  "DeleteTagFromNote c tagID noteID out =
     \<lparr>recv = c,
      trace = [Sent \<lparr>Method = ''DELETE'', Port = port c,
                     Path = ''/tags/{tagID}/notes/{noteID}'',
                     PathParams = [''tagID'' \<mapsto> tagID, ''noteID'' \<mapsto> noteID],
                     QueryParams = [''token'' \<mapsto> apiToken c],
                     Body = NoBody\<rparr>],
      ret = (),
      err = answer errorResponse out\<rparr>"

definition GetApiToken :: "Client \<Rightarrow> string Ret" where
  "GetApiToken c = \<lparr>recv = c, trace = [], ret = apiToken c, err = None\<rparr>"

text \<open>
  The next five methods wrap their single request in a \<^verbatim>\<open>for\<close> whose body returns on every
  path, so the loop runs once. Their error branch prints \<^verbatim>\<open>resp.Error()\<close>.
\<close>

definition CreateTagsNotes :: "Client \<Rightarrow> string \<Rightarrow> string \<Rightarrow> unit outcome \<Rightarrow> unit Ret" where
  "CreateTagsNotes c note_id tagID out =
     \<lparr>recv = c,
      trace = [Sent \<lparr>Method = ''POST'', Port = port c, Path = ''/tags/{tagID}/notes'',
                     PathParams = [''tagID'' \<mapsto> tagID],
                     QueryParams = [''token'' \<mapsto> apiToken c],
                     Body = BodyJsonString
                       ([CHR 0x7B, CHR 0x22] @ ''id'' @ [CHR 0x22] @ '': '' @ [CHR 0x22]
                        @ note_id @ [CHR 0x22, CHR 0x7D])\<rparr>],
      ret = (),
      err = answer errorResponseText out\<rparr>"

definition UpdateNoteAuthor :: "Client \<Rightarrow> Note \<Rightarrow> string \<Rightarrow> unit outcome \<Rightarrow> unit Ret" where
  "UpdateNoteAuthor c note val out =
     \<lparr>recv = c,
      trace = [Sent \<lparr>Method = ''PUT'', Port = port c, Path = ''/notes/{noteid}'',
                     PathParams = [''noteid'' \<mapsto> ID note],
                     QueryParams = [''token'' \<mapsto> apiToken c],
                     Body = BodyParams [''author'' \<mapsto> val]\<rparr>],
      ret = (),
      err = answer errorResponseText out\<rparr>"

definition GetAuthorField :: "Client \<Rightarrow> Note \<Rightarrow> Note outcome \<Rightarrow> string Ret" where
  "GetAuthorField c note out =
     \<lparr>recv = c,
      trace = [Sent \<lparr>Method = ''GET'', Port = port c, Path = ''/notes/{noteid}'',
                     PathParams = [''noteid'' \<mapsto> ID note],
                     QueryParams = [''fields'' \<mapsto> ''id,title,author'', ''token'' \<mapsto> apiToken c],
                     Body = NoBody\<rparr>],
      ret = (if answer errorResponseText out = None then Author (held out) else []),
      err = answer errorResponseText out\<rparr>"

definition CreateFolder :: "Client \<Rightarrow> string \<Rightarrow> string \<Rightarrow> unit outcome \<Rightarrow> unit Ret" where
  "CreateFolder c folder_name parent_id out =
     \<lparr>recv = c,
      trace = [Sent \<lparr>Method = ''POST'', Port = port c, Path = ''/folders'',
                     PathParams = Map.empty,
                     QueryParams = [''token'' \<mapsto> apiToken c],
                     Body = BodyParams [''title'' \<mapsto> folder_name, ''parent_id'' \<mapsto> parent_id]\<rparr>],
      ret = (),
      err = answer errorResponseText out\<rparr>"

definition DeleteFolder :: "Client \<Rightarrow> string \<Rightarrow> unit outcome \<Rightarrow> unit Ret" where
  "DeleteFolder c folder_id out =
     \<lparr>recv = c,
      trace = [Sent \<lparr>Method = ''DELETE'', Port = port c, Path = ''/folders/{folder_id}'',
                     PathParams = [''folder_id'' \<mapsto> folder_id],
                     QueryParams = [''token'' \<mapsto> apiToken c],
                     Body = NoBody\<rparr>],
      ret = (),
      err = answer errorResponseText out\<rparr>"

section \<open>List methods: the pagination loop\<close>

text \<open>
  The seven list methods run the same \<^verbatim>\<open>for\<close> loop; they differ in the request they build
  (\<open>mk\<close>, from the current query parameters) and in their \<^verbatim>\<open>IsError\<close> branch (\<open>onError\<close>).
  The loop state is the query-parameter map, the page counter and the accumulated items.
  The server is a script: the outcomes of the successive requests. The loop has no bound
  of its own, so the model returns \<open>None\<close> when the script ends while the loop is still
  asking for a further page.
\<close>

fun fetch_loop ::
  "Client \<Rightarrow> ((string \<rightharpoonup> string) \<Rightarrow> Request) \<Rightarrow> (Response \<Rightarrow> error) \<Rightarrow>
   (string \<rightharpoonup> string) \<Rightarrow> nat \<Rightarrow> 'a list \<Rightarrow> event list \<Rightarrow> 'a Page outcome list \<Rightarrow>
   'a list Ret option" where
  "fetch_loop c mk onError queryParams page acc tr [] = None"
| "fetch_loop c mk onError queryParams page acc tr (out # script) =
     (case out of
        Failure e _ \<Rightarrow>
          Some \<lparr>recv = c, trace = tr @ [Sent (mk queryParams)], ret = acc, err = Some e\<rparr>
      | Reply resp result \<Rightarrow>
          if IsError resp then
            Some \<lparr>recv = c, trace = tr @ [Sent (mk queryParams)], ret = acc,
                  err = Some (onError resp)\<rparr>
          else if IsSuccess resp then
            (if HasMore result then
               fetch_loop c mk onError (queryParams(''page'' \<mapsto> Itoa (page + 1))) (page + 1)
                 (acc @ Items result) (tr @ [Sent (mk queryParams)]) script
             else
               Some \<lparr>recv = c, trace = tr @ [Sent (mk queryParams)],
                     ret = acc @ Items result, err = None\<rparr>)
          else
            Some \<lparr>recv = c, trace = tr @ [Sent (mk queryParams)], ret = acc,
                  err = Some (unexpectedResponse resp)\<rparr>)"

text \<open>
  The query parameters with which the ordered list methods start: token, fields and
  page 1, then \<^verbatim>\<open>order_by\<close> and \<^verbatim>\<open>order_dir\<close> only when the argument is not empty.
\<close>

definition orderedParams ::
  "(string \<Rightarrow> string) \<Rightarrow> Client \<Rightarrow> string \<Rightarrow> string \<Rightarrow> string \<Rightarrow> (string \<rightharpoonup> string)" where
  "orderedParams unicodeUpper c fields' orderBy orderDir =
     (let q0 = [''token'' \<mapsto> apiToken c, ''fields'' \<mapsto> fields', ''page'' \<mapsto> Itoa 1];
          q1 = (if length orderBy \<noteq> 0 then q0(''order_by'' \<mapsto> orderBy) else q0)
      in (if length orderDir \<noteq> 0 then q1(''order_dir'' \<mapsto> ToUpper unicodeUpper orderDir)
          else q1))"

definition getRequest :: "Client \<Rightarrow> string \<Rightarrow> (string \<rightharpoonup> string) \<Rightarrow> (string \<rightharpoonup> string) \<Rightarrow> Request" where
  "getRequest c path pathParams queryParams =
     \<lparr>Method = ''GET'', Port = port c, Path = path, PathParams = pathParams,
      QueryParams = queryParams, Body = NoBody\<rparr>"

definition GetNotesByTag ::
  "(string \<Rightarrow> string) \<Rightarrow> Client \<Rightarrow> string \<Rightarrow> string \<Rightarrow> string \<Rightarrow> 'a Page outcome list \<Rightarrow>
   'a list Ret option" where
  "GetNotesByTag unicodeUpper c ident orderBy orderDir script =
     fetch_loop c (getRequest c ''/tags/{id}/notes'' [''id'' \<mapsto> ident])
       (notFoundOr (couldNotFind ''note with IDs'' ident))
       (orderedParams unicodeUpper c ''id,parent_id,title'' orderBy orderDir) 1 [] [] script"

definition GetAllNotes ::
  "(string \<Rightarrow> string) \<Rightarrow> Client \<Rightarrow> string \<Rightarrow> string \<Rightarrow> string \<Rightarrow> 'a Page outcome list \<Rightarrow>
   'a list Ret option" where
  "GetAllNotes unicodeUpper c fields' orderBy orderDir script =
     fetch_loop c (getRequest c ''/notes'' Map.empty) errorResponse
       (orderedParams unicodeUpper c fields' orderBy orderDir) 1 [] [] script"

definition GetNotesInFolder ::
  "(string \<Rightarrow> string) \<Rightarrow> Client \<Rightarrow> string \<Rightarrow> string \<Rightarrow> string \<Rightarrow> string \<Rightarrow>
   'a Page outcome list \<Rightarrow> 'a list Ret option" where
  "GetNotesInFolder unicodeUpper c ident fields' orderBy orderDir script =
     fetch_loop c (getRequest c ''/folders/{id}/notes'' [''id'' \<mapsto> ident]) errorResponse
       (orderedParams unicodeUpper c fields' orderBy orderDir) 1 [] [] script"

definition GetAllFolders ::
  "(string \<Rightarrow> string) \<Rightarrow> Client \<Rightarrow> string \<Rightarrow> string \<Rightarrow> string \<Rightarrow> 'a Page outcome list \<Rightarrow>
   'a list Ret option" where
  "GetAllFolders unicodeUpper c fields' orderBy orderDir script =
     fetch_loop c (getRequest c ''/folders'' Map.empty) errorResponse
       (orderedParams unicodeUpper c fields' orderBy orderDir) 1 [] [] script"

definition GetAllTags ::
  "(string \<Rightarrow> string) \<Rightarrow> Client \<Rightarrow> string \<Rightarrow> string \<Rightarrow> 'a Page outcome list \<Rightarrow>
   'a list Ret option" where
  "GetAllTags unicodeUpper c orderBy orderDir script =
     fetch_loop c (getRequest c ''/tags/'' Map.empty) errorResponse
       (orderedParams unicodeUpper c ''id,parent_id,title'' orderBy orderDir) 1 [] [] script"

definition GetNoteTags ::
  "(string \<Rightarrow> string) \<Rightarrow> Client \<Rightarrow> string \<Rightarrow> string \<Rightarrow> string \<Rightarrow> 'a Page outcome list \<Rightarrow>
   'a list Ret option" where
  "GetNoteTags unicodeUpper c ident orderBy orderDir script =
     fetch_loop c (getRequest c ''/notes/{id}/tags'' [''id'' \<mapsto> ident])
       (notFoundOr (couldNotFind ''note with IDs'' ident))
       (orderedParams unicodeUpper c ''id,parent_id,title'' orderBy orderDir) 1 [] [] script"

definition searchParams :: "Client \<Rightarrow> string \<Rightarrow> string \<Rightarrow> string \<Rightarrow> (string \<rightharpoonup> string)" where
  "searchParams c query queryType fields' =
     (let q0 = [''token'' \<mapsto> apiToken c, ''page'' \<mapsto> Itoa 1, ''query'' \<mapsto> query];
          q1 = (if length queryType \<noteq> 0 then q0(''type'' \<mapsto> queryType) else q0)
      in (if length fields' \<noteq> 0 then q1(''fields'' \<mapsto> fields') else q1))"

definition Search ::
  "Client \<Rightarrow> string \<Rightarrow> string \<Rightarrow> string \<Rightarrow> 'a Page outcome list \<Rightarrow> 'a list Ret option" where
  "Search c query queryType fields' script =
     fetch_loop c (getRequest c ''/search'' Map.empty) errorResponse
       (searchParams c query queryType fields') 1 [] [] script"

section \<open>Pairing\<close>

definition getAuthToken :: "Client \<Rightarrow> string outcome \<Rightarrow> string Ret" where
  "getAuthToken c out =
     \<lparr>recv = c,
      trace = [Sent \<lparr>Method = ''POST'', Port = port c, Path = ''/auth'',
                     PathParams = Map.empty, QueryParams = Map.empty, Body = NoBody\<rparr>],
      ret = (if answer errorResponse out = None then held out else []),
      err = answer errorResponse out\<rparr>"

definition checkRequest :: "Client \<Rightarrow> string \<Rightarrow> Request" where
  "checkRequest c authToken =
     getRequest c ''/auth/check'' Map.empty [''auth_token'' \<mapsto> authToken]"

text \<open>
  The polling loop of \<^verbatim>\<open>getApiToken\<close>, on the script of its poll outcomes. The loop state is
  the retry counter. A success reply whose status is none of the three known words, and
  a reply that is neither an error nor a success, fall out of the \<^verbatim>\<open>if\<close> chain to the end of
  the loop body: the loop polls again at once, with the counter unchanged.
\<close>

fun getApiToken_loop ::
  "Client \<Rightarrow> string \<Rightarrow> nat \<Rightarrow> event list \<Rightarrow> CheckResult outcome list \<Rightarrow> string Ret option" where
  "getApiToken_loop c authToken retries tr [] = None"
| "getApiToken_loop c authToken retries tr (out # script) =
     (case out of
        Failure e _ \<Rightarrow>
          Some \<lparr>recv = c, trace = tr @ [Sent (checkRequest c authToken)], ret = [],
                err = Some e\<rparr>
      | Reply resp result \<Rightarrow>
          if IsError resp then
            Some \<lparr>recv = c, trace = tr @ [Sent (checkRequest c authToken)], ret = [],
                  err = Some (errorResponse resp)\<rparr>
          else if IsSuccess resp then
            (if Status result = ''accepted'' then
               Some \<lparr>recv = c, trace = tr @ [Sent (checkRequest c authToken)],
                     ret = ApiToken result, err = None\<rparr>
             else if Status result = ''rejected'' then
               Some \<lparr>recv = c, trace = tr @ [Sent (checkRequest c authToken)], ret = [],
                     err = Some (Errorf ''request rejected'')\<rparr>
             else if Status result = ''waiting'' then
               (if retries + 1 < retriesGetApiToken then
                  getApiToken_loop c authToken (retries + 1)
                    (tr @ [Sent (checkRequest c authToken), Slept 1]) script
                else
                  Some \<lparr>recv = c, trace = tr @ [Sent (checkRequest c authToken)], ret = [],
                        err = Some (Errorf ''could not get an answer from user'')\<rparr>)
             else
               getApiToken_loop c authToken retries
                 (tr @ [Sent (checkRequest c authToken)]) script)
          else
            getApiToken_loop c authToken retries
              (tr @ [Sent (checkRequest c authToken)]) script)"

definition getApiToken :: "Client \<Rightarrow> string \<Rightarrow> CheckResult outcome list \<Rightarrow> string Ret option" where
  "getApiToken c authToken script = getApiToken_loop c authToken 0 [] script"

section \<open>Port discovery: New\<close>

record NewState =
  newClient :: Client
  retErr :: "error option"
  joplinPortFound :: bool
  events :: "event list"

definition pingRequest :: "nat \<Rightarrow> Request" where
  "pingRequest i =
     \<lparr>Method = ''GET'', Port = i, Path = ''/ping'', PathParams = Map.empty,
      QueryParams = Map.empty, Body = NoBody\<rparr>"

text \<open>
  The body of \<^verbatim>\<open>if resp.IsSuccess()\<close> in the scan, which always ends in \<^verbatim>\<open>break\<close>: the port is
  stored, and only when no API token was supplied the pairing runs (its two methods are
  called on \<^verbatim>\<open>&newClient\<close>). \<^verbatim>\<open>newClient.apiToken\<close> is assigned whatever \<^verbatim>\<open>getApiToken\<close>
  returns, before its error is tested.
\<close>

definition portFound ::
  "string \<Rightarrow> string outcome \<Rightarrow> CheckResult outcome list \<Rightarrow> nat \<Rightarrow> NewState \<Rightarrow> NewState option" where
  "portFound token auth polls i st =
     (let st1 = st\<lparr>newClient := (newClient st)\<lparr>port := i\<rparr>\<rparr> in
      if length token = 0 then
        (let a = getAuthToken (newClient st1) auth;
             st2 = st1\<lparr>newClient := recv a, events := events st1 @ trace a\<rparr> in
         case err a of
           Some e \<Rightarrow> Some (st2\<lparr>retErr := Some e\<rparr>)
         | None \<Rightarrow>
             (case getApiToken (newClient st2) (ret a) polls of
                None \<Rightarrow> None
              | Some t \<Rightarrow>
                  (let st3 = st2\<lparr>newClient := (recv t)\<lparr>apiToken := ret t\<rparr>,
                                  events := events st2 @ trace t\<rparr> in
                   case err t of
                     Some e \<Rightarrow> Some (st3\<lparr>retErr := Some e\<rparr>)
                   | None \<Rightarrow> Some (st3\<lparr>joplinPortFound := True\<rparr>))))
      else Some (st1\<lparr>joplinPortFound := True\<rparr>))"

text \<open>
  The scan \<^verbatim>\<open>for i := joplinMinPortNum; i <= joplinMaxPortNum; i++\<close>. \<open>ping i\<close> is the outcome
  of the probe of port \<open>i\<close>. In the \<^verbatim>\<open>IsError\<close> branch the source assigns \<^verbatim>\<open>retErr = err\<close>
  where \<^verbatim>\<open>err\<close> is nil (the branch is reached only when \<^verbatim>\<open>err == nil\<close>). A reply that is
  neither an error nor a success leaves \<^verbatim>\<open>retErr\<close> as it is.
\<close>

function New_loop ::
  "string \<Rightarrow> (nat \<Rightarrow> unit outcome) \<Rightarrow> string outcome \<Rightarrow> CheckResult outcome list \<Rightarrow>
   nat \<Rightarrow> NewState \<Rightarrow> NewState option" where
  "New_loop token ping auth polls i st =
     (if i \<le> joplinMaxPortNum then
        (case ping i of
           Failure e _ \<Rightarrow>
             New_loop token ping auth polls (i + 1)
               (st\<lparr>retErr := Some e, events := events st @ [Sent (pingRequest i)]\<rparr>)
         | Reply resp _ \<Rightarrow>
             if IsError resp then
               New_loop token ping auth polls (i + 1)
                 (st\<lparr>retErr := None, events := events st @ [Sent (pingRequest i)]\<rparr>)
             else if IsSuccess resp then
               portFound token auth polls i
                 (st\<lparr>events := events st @ [Sent (pingRequest i)]\<rparr>)
             else
               New_loop token ping auth polls (i + 1)
                 (st\<lparr>events := events st @ [Sent (pingRequest i)]\<rparr>))
      else Some st)"
  by pat_completeness auto
termination
  by (relation "measure (\<lambda>(token, ping, auth, polls, i, st). joplinMaxPortNum + 1 - i)") auto

declare New_loop.simps [simp del]

text \<open>What \<^verbatim>\<open>New\<close> returns: the client pointer (nil is \<open>None\<close>), the error, and what it did.\<close>

record NewRet =
  client :: "Client option"
  newErr :: "error option"
  newTrace :: "event list"

definition New ::
  "string \<Rightarrow> (nat \<Rightarrow> unit outcome) \<Rightarrow> string outcome \<Rightarrow> CheckResult outcome list \<Rightarrow>
   NewRet option" where
  "New token ping auth polls =
     (case New_loop token ping auth polls joplinMinPortNum
             \<lparr>newClient = \<lparr>port = 0, apiToken = token\<rparr>, retErr = None,
              joplinPortFound = False, events = []\<rparr> of
        None \<Rightarrow> None
      | Some st \<Rightarrow>
          if \<not> joplinPortFound st then
            Some \<lparr>client = None, newErr = retErr st, newTrace = events st\<rparr>
          else
            Some \<lparr>client = Some (newClient st), newErr = None, newTrace = events st\<rparr>)"

text \<open>The ports that a trace probed with \<^verbatim>\<open>/ping\<close>, in order.\<close>

fun probedPorts :: "event list \<Rightarrow> nat list" where
  "probedPorts [] = []"
| "probedPorts (Sent r # es) =
     (if Path r = ''/ping'' then Port r # probedPorts es else probedPorts es)"
| "probedPorts (Slept s # es) = probedPorts es"

section \<open>Observations and server scripts used in the statements\<close>

text \<open>
  The \<^verbatim>\<open>page\<close> query parameter of an event (a sleep has none), and what a list call is
  observed to do: the page parameters of its requests in order, the items and the error
  it returns.
\<close>
fun pageParam :: "event \<Rightarrow> string option" where
  "pageParam (Sent r) = QueryParams r ''page''"
| "pageParam (Slept s) = None"

definition summary :: "'a list Ret \<Rightarrow> string option list \<times> 'a list \<times> error option" where
  "summary res = (map pageParam (trace res), ret res, err res)"

definition morePage :: "Response \<times> 'a list \<Rightarrow> 'a Page outcome" where
  "morePage p = Reply (fst p) \<lparr>Items = snd p, HasMore = True\<rparr>"

definition lastPage :: "Response \<Rightarrow> 'a list \<Rightarrow> 'a Page outcome" where
  "lastPage r xs = Reply r \<lparr>Items = xs, HasMore = False\<rparr>"

text \<open>A request that fails: a transport error, or a reply with an HTTP error status.\<close>

definition failed :: "'b outcome \<Rightarrow> bool" where
  "failed out = (case out of Failure e _ \<Rightarrow> True | Reply resp _ \<Rightarrow> IsError resp)"

text \<open>A poll that is answered with a success status and the status word \<^verbatim>\<open>waiting\<close>.\<close>

definition waiting :: "CheckResult outcome \<Rightarrow> bool" where
  "waiting out =
     (case out of Failure e _ \<Rightarrow> False
      | Reply resp result \<Rightarrow> IsSuccess resp \<and> Status result = ''waiting'')"

text \<open>A probe that is answered with an HTTP success status.\<close>

definition pingSucceeds :: "unit outcome \<Rightarrow> bool" where
  "pingSucceeds out = (case out of Failure e _ \<Rightarrow> False | Reply resp _ \<Rightarrow> IsSuccess resp)"

text \<open>
  An outcome on which the pagination loop returns: anything but a success page with the
  has-more flag set.
\<close>

definition endsLoop :: "'a Page outcome \<Rightarrow> bool" where
  "endsLoop out =
     (case out of Failure e _ \<Rightarrow> True
      | Reply resp result \<Rightarrow> \<not> (IsSuccess resp \<and> HasMore result))"

text \<open>
  A poll outcome on which \<^verbatim>\<open>getApiToken\<close> returns whatever its retry counter: a transport
  error, an HTTP error status, or a success reply that is accepted or rejected.
\<close>

definition pollEnds :: "CheckResult outcome \<Rightarrow> bool" where
  "pollEnds out =
     (case out of Failure e _ \<Rightarrow> True
      | Reply resp result \<Rightarrow>
          IsError resp
          \<or> (IsSuccess resp \<and> (Status result = ''accepted'' \<or> Status result = ''rejected'')))"

section \<open>The pagination loop\<close>

lemma success_not_error: "IsSuccess r \<Longrightarrow> \<not> IsError r"
  by (simp add: IsSuccess_def IsError_def)

lemma fetch_loop_step:
  assumes "IsSuccess (fst p)"
  shows "fetch_loop c mk onError q page acc tr (morePage p # script)
       = fetch_loop c mk onError (q(''page'' \<mapsto> Itoa (page + 1))) (page + 1)
           (acc @ snd p) (tr @ [Sent (mk q)]) script"
  using assms by (simp add: morePage_def success_not_error)

lemma fetch_loop_more:
  assumes "\<forall>p\<in>set ps. IsSuccess (fst p)"
  shows "fetch_loop c mk onError (base(''page'' \<mapsto> Itoa page)) page acc tr (map morePage ps @ rest)
       = fetch_loop c mk onError (base(''page'' \<mapsto> Itoa (page + length ps))) (page + length ps)
           (acc @ concat (map snd ps))
           (tr @ map (\<lambda>i. Sent (mk (base(''page'' \<mapsto> Itoa i)))) [page..<page + length ps]) rest"
  using assms
proof (induction ps arbitrary: page acc tr)
  case Nil
  then show ?case by simp
next
  case (Cons p ps)
  from Cons.prems have p: "IsSuccess (fst p)" and ps: "\<forall>q\<in>set ps. IsSuccess (fst q)"
    by simp_all
  have unroll: "[page..<page + length (p # ps)] = page # [page + 1..<page + 1 + length ps]"
    by (simp add: upt_rec)
  have "fetch_loop c mk onError (base(''page'' \<mapsto> Itoa page)) page acc tr (map morePage (p # ps) @ rest)
      = fetch_loop c mk onError (base(''page'' \<mapsto> Itoa page)) page acc tr (morePage p # (map morePage ps @ rest))"
    by simp
  also have "\<dots> = fetch_loop c mk onError ((base(''page'' \<mapsto> Itoa page))(''page'' \<mapsto> Itoa (page + 1)))
                    (page + 1) (acc @ snd p) (tr @ [Sent (mk (base(''page'' \<mapsto> Itoa page)))])
                    (map morePage ps @ rest)"
    by (rule fetch_loop_step [OF p])
  also have "\<dots> = fetch_loop c mk onError (base(''page'' \<mapsto> Itoa (page + 1)))
                    (page + 1) (acc @ snd p) (tr @ [Sent (mk (base(''page'' \<mapsto> Itoa page)))])
                    (map morePage ps @ rest)"
    by (simp only: fun_upd_upd)
  also have "\<dots> = fetch_loop c mk onError (base(''page'' \<mapsto> Itoa (page + 1 + length ps)))
                    (page + 1 + length ps) ((acc @ snd p) @ concat (map snd ps))
                    ((tr @ [Sent (mk (base(''page'' \<mapsto> Itoa page)))])
                      @ map (\<lambda>i. Sent (mk (base(''page'' \<mapsto> Itoa i)))) [page + 1..<page + 1 + length ps])
                    rest"
    by (rule Cons.IH [OF ps])
  also have "page + 1 + length ps = page + length (p # ps)"
    by simp
  also have "(acc @ snd p) @ concat (map snd ps) = acc @ concat (map snd (p # ps))"
    by simp
  also have "(tr @ [Sent (mk (base(''page'' \<mapsto> Itoa page)))])
               @ map (\<lambda>i. Sent (mk (base(''page'' \<mapsto> Itoa i)))) [page + 1..<page + length (p # ps)]
           = tr @ map (\<lambda>i. Sent (mk (base(''page'' \<mapsto> Itoa i)))) [page..<page + length (p # ps)]"
    unfolding unroll by (simp del: upt_Suc)
  finally show ?case .
qed

lemma fetch_loop_last:
  assumes "IsSuccess rk"
  shows "fetch_loop c mk onError q page acc tr (lastPage rk xk # rest)
       = Some \<lparr>recv = c, trace = tr @ [Sent (mk q)], ret = acc @ xk, err = None\<rparr>"
  using assms by (simp add: lastPage_def success_not_error)

lemma fetch_loop_stop:
  assumes "answer onError bad \<noteq> None"
  shows "fetch_loop c mk onError q page acc tr (bad # rest)
       = Some \<lparr>recv = c, trace = tr @ [Sent (mk q)], ret = acc, err = answer onError bad\<rparr>"
  using assms by (cases bad) (simp_all add: answer_def split: if_splits)

lemma pageParam_get [simp]: "pageParam (Sent (getRequest c path pp q)) = q ''page''"
  by (simp add: getRequest_def)

lemma fetch_pages_summary:
  assumes "\<forall>p\<in>set ps. IsSuccess (fst p)" and "IsSuccess rk" and "q ''page'' = Some (Itoa 1)"
  shows "map_option summary
           (fetch_loop c (getRequest c path pp) onError q 1 [] [] (map morePage ps @ lastPage rk xk # rest))
       = Some (map (\<lambda>i. Some (Itoa i)) [1..<length ps + 2], concat (map snd ps) @ xk, None)"
proof -
  have q: "q = q(''page'' \<mapsto> Itoa 1)"
    using assms(3) by (simp add: map_upd_triv)
  have "fetch_loop c (getRequest c path pp) onError (q(''page'' \<mapsto> Itoa 1)) 1 [] [] (map morePage ps @ lastPage rk xk # rest)
       = fetch_loop c (getRequest c path pp) onError (q(''page'' \<mapsto> Itoa (1 + length ps))) (1 + length ps)
           ([] @ concat (map snd ps))
           ([] @ map (\<lambda>i. Sent (getRequest c path pp (q(''page'' \<mapsto> Itoa i)))) [1..<1 + length ps])
           (lastPage rk xk # rest)"
    by (rule fetch_loop_more [OF assms(1)])
  also have "\<dots> = Some \<lparr>recv = c,
               trace = ([] @ map (\<lambda>i. Sent (getRequest c path pp (q(''page'' \<mapsto> Itoa i)))) [1..<1 + length ps])
                        @ [Sent (getRequest c path pp (q(''page'' \<mapsto> Itoa (1 + length ps))))],
               ret = ([] @ concat (map snd ps)) @ xk, err = None\<rparr>"
    by (rule fetch_loop_last [OF assms(2)])
  finally have "fetch_loop c (getRequest c path pp) onError (q(''page'' \<mapsto> Itoa 1)) 1 [] [] (map morePage ps @ lastPage rk xk # rest)
       = Some \<lparr>recv = c,
               trace = map (\<lambda>i. Sent (getRequest c path pp (q(''page'' \<mapsto> Itoa i)))) [1..<length ps + 2],
               ret = concat (map snd ps) @ xk, err = None\<rparr>"
    by simp
  then have "fetch_loop c (getRequest c path pp) onError q 1 [] [] (map morePage ps @ lastPage rk xk # rest)
       = Some \<lparr>recv = c,
               trace = map (\<lambda>i. Sent (getRequest c path pp (q(''page'' \<mapsto> Itoa i)))) [1..<length ps + 2],
               ret = concat (map snd ps) @ xk, err = None\<rparr>"
    using q by simp
  then show ?thesis
    by (simp add: summary_def comp_def getRequest_def del: upt_Suc)
qed


lemma orderedParams_page: "orderedParams U c f ob od ''page'' = Some (Itoa 1)"
  by (simp add: orderedParams_def Let_def)

lemma searchParams_page: "searchParams c q qt f ''page'' = Some (Itoa 1)"
  by (simp add: searchParams_def Let_def)

text \<open>
  Claim C1. When the server answers the first \<open>k - 1\<close> requests of a list call with
  success pages whose has-more flag is set (the list \<open>ps\<close>, each entry a response and
  its items) and the \<open>k\<close>-th with a success page whose flag is clear, the call issues
  exactly \<open>k\<close> requests, their \<^verbatim>\<open>page\<close> parameters are the decimal numerals of
  \<open>1, 2, ..., k\<close> in that order, and it returns the items of all pages concatenated in
  the order received, with a nil error. Whatever the script holds after page \<open>k\<close>
  (\<open>rest\<close>) is never asked for.
\<close>

theorem C1_pagination_complete:
  assumes "\<forall>p\<in>set ps. IsSuccess (fst p)" and "IsSuccess rk"
    and "run \<in> {GetAllNotes U c f ob od, GetAllTags U c ob od, GetNotesByTag U c i ob od,
                 GetNotesInFolder U c i f ob od, GetAllFolders U c f ob od,
                 GetNoteTags U c i ob od, Search c q qt f}"
  shows "map_option summary (run (map morePage ps @ lastPage rk xk # rest))
       = Some (map (\<lambda>n. Some (Itoa n)) [1..<length ps + 2], concat (map snd ps) @ xk, None)"
proof -
  have ord: "map_option summary
           (fetch_loop c (getRequest c path pp) onError (orderedParams U c f' ob od) 1 [] []
              (map morePage ps @ lastPage rk xk # rest))
       = Some (map (\<lambda>n. Some (Itoa n)) [1..<length ps + 2], concat (map snd ps) @ xk, None)"
    for path pp onError f'
    using assms(1,2) orderedParams_page by (rule fetch_pages_summary)
  have srch: "map_option summary
           (fetch_loop c (getRequest c path pp) onError (searchParams c q qt f) 1 [] []
              (map morePage ps @ lastPage rk xk # rest))
       = Some (map (\<lambda>n. Some (Itoa n)) [1..<length ps + 2], concat (map snd ps) @ xk, None)"
    for path pp onError
    using assms(1,2) searchParams_page by (rule fetch_pages_summary)
  show ?thesis
    using assms(3)
    by (elim insertE emptyE)
       (simp_all only: GetAllNotes_def GetAllTags_def GetNotesByTag_def GetNotesInFolder_def
          GetAllFolders_def GetNoteTags_def Search_def ord srch)
qed

theorem C1_pagination_complete_witness:
  "map_option summary
     (GetAllNotes id \<lparr>port = 41184, apiToken = ''t''\<rparr> ''id,title'' [] ''desc''
        [Reply \<lparr>StatusCode = 200, Dump = [], ErrorText = []\<rparr>
           \<lparr>Items = [''A'', ''B''], HasMore = True\<rparr>,
         Reply \<lparr>StatusCode = 200, Dump = [], ErrorText = []\<rparr>
           \<lparr>Items = [''C'', ''D''], HasMore = True\<rparr>,
         Reply \<lparr>StatusCode = 200, Dump = [], ErrorText = []\<rparr>
           \<lparr>Items = [''E''], HasMore = False\<rparr>])
   = Some ([Some ''1'', Some ''2'', Some ''3''], [''A'', ''B'', ''C'', ''D'', ''E''], None)"
  using C1_pagination_complete
    [where ps = "[(\<lparr>StatusCode = 200, Dump = [], ErrorText = []\<rparr>, [''A'', ''B'']),
                  (\<lparr>StatusCode = 200, Dump = [], ErrorText = []\<rparr>, [''C'', ''D''])]"
       and rk = "\<lparr>StatusCode = 200, Dump = [], ErrorText = []\<rparr>"
       and xk = "[''E'']" and rest = "[]"
       and run = "GetAllNotes id \<lparr>port = 41184, apiToken = ''t''\<rparr> ''id,title'' [] ''desc''"
       and U = id and c = "\<lparr>port = 41184, apiToken = ''t''\<rparr>" and f = "''id,title''"
       and ob = "[]" and od = "''desc''"]
  by (simp add: IsSuccess_def morePage_def lastPage_def Itoa.simps upt_rec)

lemma failed_answer: "failed bad \<Longrightarrow> \<exists>e. answer onError bad = Some e"
  by (cases bad) (simp_all add: failed_def answer_def)

lemma fetch_fail_summary:
  assumes "\<forall>p\<in>set ps. IsSuccess (fst p)" and "failed bad" and "q ''page'' = Some (Itoa 1)"
  shows "\<exists>e. map_option summary
           (fetch_loop c (getRequest c path pp) onError q 1 [] [] (map morePage ps @ bad # rest))
       = Some (map (\<lambda>n. Some (Itoa n)) [1..<length ps + 2], concat (map snd ps), Some e)"
proof -
  from failed_answer [OF assms(2)] obtain e where e: "answer onError bad = Some e"
    by blast
  have q: "q = q(''page'' \<mapsto> Itoa 1)"
    using assms(3) by (simp add: map_upd_triv)
  have "fetch_loop c (getRequest c path pp) onError (q(''page'' \<mapsto> Itoa 1)) 1 [] [] (map morePage ps @ bad # rest)
       = fetch_loop c (getRequest c path pp) onError (q(''page'' \<mapsto> Itoa (1 + length ps))) (1 + length ps)
           ([] @ concat (map snd ps))
           ([] @ map (\<lambda>i. Sent (getRequest c path pp (q(''page'' \<mapsto> Itoa i)))) [1..<1 + length ps])
           (bad # rest)"
    by (rule fetch_loop_more [OF assms(1)])
  also have "\<dots> = Some \<lparr>recv = c,
               trace = ([] @ map (\<lambda>i. Sent (getRequest c path pp (q(''page'' \<mapsto> Itoa i)))) [1..<1 + length ps])
                        @ [Sent (getRequest c path pp (q(''page'' \<mapsto> Itoa (1 + length ps))))],
               ret = [] @ concat (map snd ps), err = answer onError bad\<rparr>"
    by (rule fetch_loop_stop) (simp add: e)
  finally have "fetch_loop c (getRequest c path pp) onError (q(''page'' \<mapsto> Itoa 1)) 1 [] [] (map morePage ps @ bad # rest)
       = Some \<lparr>recv = c,
               trace = map (\<lambda>i. Sent (getRequest c path pp (q(''page'' \<mapsto> Itoa i)))) [1..<length ps + 2],
               ret = concat (map snd ps), err = Some e\<rparr>"
    by (simp add: e)
  then have "fetch_loop c (getRequest c path pp) onError q 1 [] [] (map morePage ps @ bad # rest)
       = Some \<lparr>recv = c,
               trace = map (\<lambda>i. Sent (getRequest c path pp (q(''page'' \<mapsto> Itoa i)))) [1..<length ps + 2],
               ret = concat (map snd ps), err = Some e\<rparr>"
    using q by simp
  then have "map_option summary
           (fetch_loop c (getRequest c path pp) onError q 1 [] [] (map morePage ps @ bad # rest))
       = Some (map (\<lambda>n. Some (Itoa n)) [1..<length ps + 2], concat (map snd ps), Some e)"
    by (simp add: summary_def comp_def getRequest_def del: upt_Suc)
  then show ?thesis ..
qed

text \<open>
  Claim C6. When pages \<open>1..j\<close> of a list call succeed with the has-more flag set and the
  request for page \<open>j + 1\<close> fails (a transport error or an HTTP error status), the call
  returns the items of pages \<open>1..j\<close>, in order, together with a non-nil error: the
  partial list is kept.
\<close>

theorem C6_partial_results_kept:
  assumes "\<forall>p\<in>set ps. IsSuccess (fst p)" and "failed bad"
    and "run \<in> {GetAllNotes U c f ob od, GetAllTags U c ob od, GetNotesByTag U c i ob od,
                 GetNotesInFolder U c i f ob od, GetAllFolders U c f ob od,
                 GetNoteTags U c i ob od, Search c q qt f}"
  shows "\<exists>e. map_option summary (run (map morePage ps @ bad # rest))
       = Some (map (\<lambda>n. Some (Itoa n)) [1..<length ps + 2], concat (map snd ps), Some e)"
proof -
  have ord: "\<exists>e. map_option summary
           (fetch_loop c (getRequest c path pp) onError (orderedParams U c f' ob od) 1 [] []
              (map morePage ps @ bad # rest))
       = Some (map (\<lambda>n. Some (Itoa n)) [1..<length ps + 2], concat (map snd ps), Some e)"
    for path pp onError f'
    using assms(1,2) orderedParams_page by (rule fetch_fail_summary)
  have srch: "\<exists>e. map_option summary
           (fetch_loop c (getRequest c path pp) onError (searchParams c q qt f) 1 [] []
              (map morePage ps @ bad # rest))
       = Some (map (\<lambda>n. Some (Itoa n)) [1..<length ps + 2], concat (map snd ps), Some e)"
    for path pp onError
    using assms(1,2) searchParams_page by (rule fetch_fail_summary)
  show ?thesis
    using assms(3)
    by (elim insertE emptyE)
       (simp_all only: GetAllNotes_def GetAllTags_def GetNotesByTag_def GetNotesInFolder_def
          GetAllFolders_def GetNoteTags_def Search_def ord srch)
qed

theorem C6_partial_results_kept_witness:
  "\<exists>e. map_option summary
     (GetAllTags id \<lparr>port = 41184, apiToken = ''t''\<rparr> [] []
        [Reply \<lparr>StatusCode = 200, Dump = [], ErrorText = []\<rparr>
           \<lparr>Items = [''A'', ''B''], HasMore = True\<rparr>,
         Reply \<lparr>StatusCode = 500, Dump = ''boom'', ErrorText = []\<rparr>
           \<lparr>Items = [''A'', ''B''], HasMore = True\<rparr>])
   = Some ([Some ''1'', Some ''2''], [''A'', ''B''], Some e)"
  using C6_partial_results_kept
    [where ps = "[(\<lparr>StatusCode = 200, Dump = [], ErrorText = []\<rparr>, [''A'', ''B''])]"
       and bad = "Reply \<lparr>StatusCode = 500, Dump = ''boom'', ErrorText = []\<rparr>
                    \<lparr>Items = [''A'', ''B''], HasMore = True\<rparr>"
       and rest = "[]"
       and run = "GetAllTags id \<lparr>port = 41184, apiToken = ''t''\<rparr> [] []"
       and U = id and c = "\<lparr>port = 41184, apiToken = ''t''\<rparr>"
       and ob = "[]" and od = "[]"]
  by (simp add: IsSuccess_def IsError_def failed_def morePage_def Itoa.simps upt_rec)

section \<open>Pairing and port discovery\<close>

lemma poll_waiting_again:
  assumes "waiting w" and "retries + 1 < retriesGetApiToken"
  shows "getApiToken_loop c a retries tr (w # script)
       = getApiToken_loop c a (retries + 1) (tr @ [Sent (checkRequest c a), Slept 1]) script"
  using assms by (cases w) (simp_all add: waiting_def success_not_error)

lemma poll_waiting_give_up:
  assumes "waiting w" and "\<not> retries + 1 < retriesGetApiToken"
  shows "getApiToken_loop c a retries tr (w # script)
       = Some \<lparr>recv = c, trace = tr @ [Sent (checkRequest c a)], ret = [],
               err = Some (Errorf ''could not get an answer from user'')\<rparr>"
  using assms by (cases w) (simp_all add: waiting_def success_not_error)

lemma poll_accepted:
  assumes "IsSuccess r" and "Status b = ''accepted''"
  shows "getApiToken_loop c a retries tr (Reply r b # script)
       = Some \<lparr>recv = c, trace = tr @ [Sent (checkRequest c a)], ret = ApiToken b, err = None\<rparr>"
  using assms by (simp add: success_not_error)

lemma poll_waiting_run:
  assumes "\<forall>w\<in>set ws. waiting w" and "retries + length ws < retriesGetApiToken"
  shows "getApiToken_loop c a retries tr (ws @ rest)
       = getApiToken_loop c a (retries + length ws)
           (tr @ concat (replicate (length ws) [Sent (checkRequest c a), Slept 1])) rest"
  using assms
proof (induction ws arbitrary: retries tr)
  case Nil
  then show ?case by simp
next
  case (Cons w ws)
  from Cons.prems have w: "waiting w" and ws: "\<forall>v\<in>set ws. waiting v"
    and again: "retries + 1 < retriesGetApiToken"
    and bound: "(retries + 1) + length ws < retriesGetApiToken"
    by simp_all
  have "getApiToken_loop c a retries tr ((w # ws) @ rest)
      = getApiToken_loop c a (retries + 1) (tr @ [Sent (checkRequest c a), Slept 1]) (ws @ rest)"
    using poll_waiting_again [OF w again] by simp
  also have "\<dots> = getApiToken_loop c a ((retries + 1) + length ws)
           ((tr @ [Sent (checkRequest c a), Slept 1])
              @ concat (replicate (length ws) [Sent (checkRequest c a), Slept 1])) rest"
    by (rule Cons.IH [OF ws bound])
  finally show ?case by simp
qed

text \<open>
  Claim C2. If the first twenty poll outcomes are all "waiting", \<^verbatim>\<open>getApiToken\<close> fails
  with "could not get an answer from user" after exactly twenty polls, with a one-second
  sleep between consecutive polls (nineteen sleeps) and none after the last. If \<open>N\<close>
  "waiting" outcomes with \<open>N + 1 \<le> 20\<close> are followed by an "accepted" one, it succeeds
  after exactly \<open>N + 1\<close> polls, again one second apart, and returns the token of the
  accepted response.
\<close>

theorem C2_pairing_poll_bound:
  assumes "\<forall>w\<in>set ws. waiting w"
  shows "(length ws = 20 \<longrightarrow>
            getApiToken c a (ws @ rest)
          = Some \<lparr>recv = c,
                  trace = concat (replicate 19 [Sent (checkRequest c a), Slept 1])
                            @ [Sent (checkRequest c a)],
                  ret = [], err = Some (Errorf ''could not get an answer from user'')\<rparr>)
       \<and> (length ws + 1 \<le> 20 \<and> IsSuccess r \<and> Status b = ''accepted'' \<longrightarrow>
            getApiToken c a (ws @ Reply r b # rest)
          = Some \<lparr>recv = c,
                  trace = concat (replicate (length ws) [Sent (checkRequest c a), Slept 1])
                            @ [Sent (checkRequest c a)],
                  ret = ApiToken b, err = None\<rparr>)"
proof (intro conjI impI)
  assume len: "length ws = 20"
  then obtain vs w where ws: "ws = vs @ [w]" and vs: "length vs = 19"
    by (cases ws rule: rev_cases) simp_all
  from assms ws have allv: "\<forall>v\<in>set vs. waiting v" and w: "waiting w"
    by simp_all
  have "getApiToken c a (ws @ rest) = getApiToken_loop c a 0 [] (vs @ w # rest)"
    by (simp add: getApiToken_def ws)
  also have "\<dots> = getApiToken_loop c a (0 + length vs)
           ([] @ concat (replicate (length vs) [Sent (checkRequest c a), Slept 1])) (w # rest)"
    by (rule poll_waiting_run [OF allv]) (simp add: vs retriesGetApiToken_def)
  also have "\<dots> = Some \<lparr>recv = c,
           trace = ([] @ concat (replicate (length vs) [Sent (checkRequest c a), Slept 1]))
                     @ [Sent (checkRequest c a)],
           ret = [], err = Some (Errorf ''could not get an answer from user'')\<rparr>"
    by (rule poll_waiting_give_up [OF w]) (simp add: vs retriesGetApiToken_def)
  finally show "getApiToken c a (ws @ rest)
          = Some \<lparr>recv = c,
                  trace = concat (replicate 19 [Sent (checkRequest c a), Slept 1])
                            @ [Sent (checkRequest c a)],
                  ret = [], err = Some (Errorf ''could not get an answer from user'')\<rparr>"
    by (simp only: vs append_Nil)
next
  assume h: "length ws + 1 \<le> 20 \<and> IsSuccess r \<and> Status b = ''accepted''"
  have "getApiToken c a (ws @ Reply r b # rest) = getApiToken_loop c a 0 [] (ws @ Reply r b # rest)"
    by (simp add: getApiToken_def)
  also have "\<dots> = getApiToken_loop c a (0 + length ws)
           ([] @ concat (replicate (length ws) [Sent (checkRequest c a), Slept 1])) (Reply r b # rest)"
    by (rule poll_waiting_run [OF assms]) (use h in \<open>simp add: retriesGetApiToken_def\<close>)
  also have "\<dots> = Some \<lparr>recv = c,
           trace = ([] @ concat (replicate (length ws) [Sent (checkRequest c a), Slept 1]))
                     @ [Sent (checkRequest c a)],
           ret = ApiToken b, err = None\<rparr>"
    using h by (intro poll_accepted) simp_all
  finally show "getApiToken c a (ws @ Reply r b # rest)
          = Some \<lparr>recv = c,
                  trace = concat (replicate (length ws) [Sent (checkRequest c a), Slept 1])
                            @ [Sent (checkRequest c a)],
                  ret = ApiToken b, err = None\<rparr>"
    by (simp only: append_Nil)
qed


theorem C2_pairing_poll_bound_witness:
  "getApiToken \<lparr>port = 41184, apiToken = []\<rparr> ''auth''
     (replicate 20 (Reply \<lparr>StatusCode = 200, Dump = [], ErrorText = []\<rparr>
                          \<lparr>Status = ''waiting'', ApiToken = []\<rparr>))
   = Some \<lparr>recv = \<lparr>port = 41184, apiToken = []\<rparr>,
           trace = concat (replicate 19
                     [Sent (checkRequest \<lparr>port = 41184, apiToken = []\<rparr> ''auth''), Slept 1])
                   @ [Sent (checkRequest \<lparr>port = 41184, apiToken = []\<rparr> ''auth'')],
           ret = [], err = Some (Errorf ''could not get an answer from user'')\<rparr>
   \<and> getApiToken \<lparr>port = 41184, apiToken = []\<rparr> ''auth''
       [Reply \<lparr>StatusCode = 200, Dump = [], ErrorText = []\<rparr> \<lparr>Status = ''waiting'', ApiToken = []\<rparr>,
        Reply \<lparr>StatusCode = 200, Dump = [], ErrorText = []\<rparr> \<lparr>Status = ''waiting'', ApiToken = []\<rparr>,
        Reply \<lparr>StatusCode = 200, Dump = [], ErrorText = []\<rparr> \<lparr>Status = ''accepted'', ApiToken = ''T''\<rparr>]
   = Some \<lparr>recv = \<lparr>port = 41184, apiToken = []\<rparr>,
           trace = [Sent (checkRequest \<lparr>port = 41184, apiToken = []\<rparr> ''auth''), Slept 1,
                    Sent (checkRequest \<lparr>port = 41184, apiToken = []\<rparr> ''auth''), Slept 1,
                    Sent (checkRequest \<lparr>port = 41184, apiToken = []\<rparr> ''auth'')],
           ret = ''T'', err = None\<rparr>"
  using C2_pairing_poll_bound
    [where ws = "replicate 20 (Reply \<lparr>StatusCode = 200, Dump = [], ErrorText = []\<rparr>
                                 \<lparr>Status = ''waiting'', ApiToken = []\<rparr>)"
       and rest = "[]" and c = "\<lparr>port = 41184, apiToken = []\<rparr>" and a = "''auth''"]
    C2_pairing_poll_bound
    [where ws = "[Reply \<lparr>StatusCode = 200, Dump = [], ErrorText = []\<rparr> \<lparr>Status = ''waiting'', ApiToken = []\<rparr>,
                  Reply \<lparr>StatusCode = 200, Dump = [], ErrorText = []\<rparr> \<lparr>Status = ''waiting'', ApiToken = []\<rparr>]"
       and r = "\<lparr>StatusCode = 200, Dump = [], ErrorText = []\<rparr>"
       and b = "\<lparr>Status = ''accepted'', ApiToken = ''T''\<rparr>"
       and rest = "[]" and c = "\<lparr>port = 41184, apiToken = []\<rparr>" and a = "''auth''"]
  by (simp add: waiting_def IsSuccess_def)

lemma poll_unknown_again:
  assumes "IsSuccess r" and "Status b \<noteq> ''accepted''" and "Status b \<noteq> ''rejected''"
    and "Status b \<noteq> ''waiting''"
  shows "getApiToken_loop c a retries tr (Reply r b # script)
       = getApiToken_loop c a retries (tr @ [Sent (checkRequest c a)]) script"
  using assms by (simp add: success_not_error)

lemma poll_unknown_forever:
  assumes "IsSuccess r" and "Status b \<noteq> ''accepted''" and "Status b \<noteq> ''rejected''"
    and "Status b \<noteq> ''waiting''"
  shows "getApiToken_loop c a retries tr (replicate n (Reply r b)) = None"
proof (induction n arbitrary: tr)
  case 0
  show ?case by simp
next
  case (Suc n)
  have "getApiToken_loop c a retries tr (replicate (Suc n) (Reply r b))
      = getApiToken_loop c a retries (tr @ [Sent (checkRequest c a)]) (replicate n (Reply r b))"
    using poll_unknown_again [OF assms] by simp
  then show ?case by (simp only: Suc.IH)
qed

text \<open>
  Claim C3 says that a success reply whose status word is none of "accepted", "rejected"
  and "waiting" ends the negotiation with a failure. The code has no branch for it: the
  loop polls again at once. Here a reply with the status "pending" is followed by an
  accepted one and the call succeeds after two polls with no sleep in between; and on a
  server that keeps answering "pending" the call has not returned after any number
  \<open>n\<close> of polls.
\<close>

theorem C3_unknown_status_polls_again:
  "getApiToken c a
     [Reply \<lparr>StatusCode = 200, Dump = [], ErrorText = []\<rparr> \<lparr>Status = ''pending'', ApiToken = []\<rparr>,
      Reply \<lparr>StatusCode = 200, Dump = [], ErrorText = []\<rparr> \<lparr>Status = ''accepted'', ApiToken = ''T''\<rparr>]
   = Some \<lparr>recv = c, trace = [Sent (checkRequest c a), Sent (checkRequest c a)],
           ret = ''T'', err = None\<rparr>
   \<and> getApiToken c a
       (replicate n (Reply \<lparr>StatusCode = 200, Dump = [], ErrorText = []\<rparr>
                           \<lparr>Status = ''pending'', ApiToken = []\<rparr>)) = None"
proof
  show "getApiToken c a
     [Reply \<lparr>StatusCode = 200, Dump = [], ErrorText = []\<rparr> \<lparr>Status = ''pending'', ApiToken = []\<rparr>,
      Reply \<lparr>StatusCode = 200, Dump = [], ErrorText = []\<rparr> \<lparr>Status = ''accepted'', ApiToken = ''T''\<rparr>]
   = Some \<lparr>recv = c, trace = [Sent (checkRequest c a), Sent (checkRequest c a)],
           ret = ''T'', err = None\<rparr>"
    by (simp add: getApiToken_def IsSuccess_def IsError_def)
  show "getApiToken c a
       (replicate n (Reply \<lparr>StatusCode = 200, Dump = [], ErrorText = []\<rparr>
                           \<lparr>Status = ''pending'', ApiToken = []\<rparr>)) = None"
    unfolding getApiToken_def
    by (rule poll_unknown_forever) (simp_all add: IsSuccess_def)
qed

text \<open>
  Claim C4 says that \<^verbatim>\<open>New\<close> returns a non-nil error when no port answers the probe with
  success. Here ten ports refuse the connection and port 41194 answers 404: all eleven
  ports are probed, and \<^verbatim>\<open>New\<close> returns a nil client together with a nil error, because
  the HTTP-error branch stores the nil \<^verbatim>\<open>err\<close> over the transport errors seen before.
\<close>

theorem C4_last_probe_http_error:
  "New ''tok''
     (\<lambda>i. if i = 41194 then Reply \<lparr>StatusCode = 404, Dump = [], ErrorText = []\<rparr> ()
           else Failure (Transport ''connection refused'') ())
     auth polls
   = Some \<lparr>client = None, newErr = None,
           newTrace = map (\<lambda>i. Sent (pingRequest i)) [41184..<41195]\<rparr>"
  by (simp add: New_def New_loop.simps joplinMinPortNum_def joplinMaxPortNum_def IsError_def)

lemma probedPorts_append: "probedPorts (xs @ ys) = probedPorts xs @ probedPorts ys"
  by (induction xs rule: probedPorts.induct) simp_all

lemma probedPorts_pings: "probedPorts (map (\<lambda>j. Sent (pingRequest j)) js) = js"
  by (induction js) (simp_all add: pingRequest_def)

lemma poll_trace:
  assumes "getApiToken_loop c a retries tr script = Some t"
  shows "recv t = c \<and> probedPorts (trace t) = probedPorts tr
       \<and> (\<forall>rq. Sent rq \<in> set (trace t) \<longrightarrow> Sent rq \<in> set tr \<or> Port rq = port c)"
  using assms
proof (induction script arbitrary: retries tr)
  case Nil
  then show ?case by simp
next
  case (Cons out script)
  have here: "probedPorts (tr @ [Sent (checkRequest c a)]) = probedPorts tr"
    "probedPorts (tr @ [Sent (checkRequest c a), Slept 1]) = probedPorts tr"
    "Port (checkRequest c a) = port c"
    by (simp_all add: probedPorts_append checkRequest_def getRequest_def)
  show ?case
  proof (cases out)
    case (Failure e v)
    with Cons.prems here show ?thesis by auto
  next
    case (Reply resp result)
    consider (stop) "getApiToken_loop c a retries tr (out # script)
                       = Some \<lparr>recv = c, trace = tr @ [Sent (checkRequest c a)], ret = ret t, err = err t\<rparr>"
      | (sleep) "getApiToken_loop c a retries tr (out # script)
                   = getApiToken_loop c a (retries + 1) (tr @ [Sent (checkRequest c a), Slept 1]) script"
      | (again) "getApiToken_loop c a retries tr (out # script)
                   = getApiToken_loop c a retries (tr @ [Sent (checkRequest c a)]) script"
      using Cons.prems Reply by (auto split: if_splits)
    then show ?thesis
    proof cases
      case stop
      with Cons.prems have "t = \<lparr>recv = c, trace = tr @ [Sent (checkRequest c a)], ret = ret t, err = err t\<rparr>"
        by simp
      then have "recv t = c" and "trace t = tr @ [Sent (checkRequest c a)]"
        by (metis Ret.select_convs(1), metis Ret.select_convs(2))
      with here show ?thesis by auto
    next
      case sleep
      with Cons.prems have "getApiToken_loop c a (retries + 1) (tr @ [Sent (checkRequest c a), Slept 1]) script = Some t"
        by simp
      from Cons.IH [OF this] here show ?thesis by auto
    next
      case again
      with Cons.prems have "getApiToken_loop c a retries (tr @ [Sent (checkRequest c a)]) script = Some t"
        by simp
      from Cons.IH [OF this] here show ?thesis by auto
    qed
  qed
qed


lemma New_loop_failed_probe:
  assumes "i \<le> joplinMaxPortNum" and "\<not> pingSucceeds (ping i)"
  shows "\<exists>e. New_loop token ping auth polls i st
           = New_loop token ping auth polls (i + 1)
               (st\<lparr>retErr := e, events := events st @ [Sent (pingRequest i)]\<rparr>)"
proof (cases "ping i")
  case (Failure e v)
  with assms(1) have "New_loop token ping auth polls i st
           = New_loop token ping auth polls (i + 1)
               (st\<lparr>retErr := Some e, events := events st @ [Sent (pingRequest i)]\<rparr>)"
    by (subst New_loop.simps) simp
  then show ?thesis ..
next
  case (Reply resp v)
  with assms(2) have ns: "\<not> IsSuccess resp"
    by (simp add: pingSucceeds_def)
  show ?thesis
  proof (cases "IsError resp")
    case True
    with assms(1) Reply have "New_loop token ping auth polls i st
           = New_loop token ping auth polls (i + 1)
               (st\<lparr>retErr := None, events := events st @ [Sent (pingRequest i)]\<rparr>)"
      by (subst New_loop.simps) simp
    then show ?thesis ..
  next
    case False
    with assms(1) Reply ns have "New_loop token ping auth polls i st
           = New_loop token ping auth polls (i + 1)
               (st\<lparr>retErr := retErr st, events := events st @ [Sent (pingRequest i)]\<rparr>)"
      by (subst New_loop.simps) simp
    then show ?thesis ..
  qed
qed

lemma New_loop_skip:
  assumes "i \<le> P" and "P \<le> joplinMaxPortNum"
    and "\<forall>j. i \<le> j \<and> j < P \<longrightarrow> \<not> pingSucceeds (ping j)"
  shows "\<exists>e. New_loop token ping auth polls i st
           = New_loop token ping auth polls P
               (st\<lparr>retErr := e, events := events st @ map (\<lambda>j. Sent (pingRequest j)) [i..<P]\<rparr>)"
  using assms(1,3)
proof (induction i arbitrary: st rule: inc_induct)
  case base
  have "New_loop token ping auth polls P st
      = New_loop token ping auth polls P
          (st\<lparr>retErr := retErr st, events := events st @ map (\<lambda>j. Sent (pingRequest j)) [P..<P]\<rparr>)"
    by simp
  then show ?case ..
next
  case (step n)
  from step.hyps assms(2) have n: "n \<le> joplinMaxPortNum"
    by simp
  from step.prems step.hyps have fail: "\<not> pingSucceeds (ping n)"
    and later: "\<forall>j. Suc n \<le> j \<and> j < P \<longrightarrow> \<not> pingSucceeds (ping j)"
    by simp_all
  from New_loop_failed_probe [where ping = ping and i = n and token = token and auth = auth
      and polls = polls and st = st, OF n fail] obtain e where
    one: "New_loop token ping auth polls n st
           = New_loop token ping auth polls (Suc n)
               (st\<lparr>retErr := e, events := events st @ [Sent (pingRequest n)]\<rparr>)"
    by auto
  from step.IH [OF later] obtain e' where
    more: "New_loop token ping auth polls (Suc n)
               (st\<lparr>retErr := e, events := events st @ [Sent (pingRequest n)]\<rparr>)
           = New_loop token ping auth polls P
               ((st\<lparr>retErr := e, events := events st @ [Sent (pingRequest n)]\<rparr>)
                  \<lparr>retErr := e',
                   events := events (st\<lparr>retErr := e, events := events st @ [Sent (pingRequest n)]\<rparr>)
                             @ map (\<lambda>j. Sent (pingRequest j)) [Suc n..<P]\<rparr>)"
    by blast
  have "[n..<P] = n # [Suc n..<P]"
    using step.hyps by (simp add: upt_conv_Cons)
  then have "New_loop token ping auth polls n st
           = New_loop token ping auth polls P
               (st\<lparr>retErr := e', events := events st @ map (\<lambda>j. Sent (pingRequest j)) [n..<P]\<rparr>)"
    using one more by simp
  then show ?case ..
qed

lemma New_loop_found:
  assumes "P \<le> joplinMaxPortNum" and "pingSucceeds (ping P)"
  shows "New_loop token ping auth polls P st
       = portFound token auth polls P (st\<lparr>events := events st @ [Sent (pingRequest P)]\<rparr>)"
proof (cases "ping P")
  case (Failure e v)
  with assms(2) show ?thesis
    by (simp add: pingSucceeds_def)
next
  case (Reply resp v)
  with assms(2) have "IsSuccess resp"
    by (simp add: pingSucceeds_def)
  with assms(1) Reply show ?thesis
    by (subst New_loop.simps) (simp add: success_not_error)
qed

lemma portFound_token:
  assumes "token \<noteq> []"
  shows "portFound token auth polls P st
       = Some (st\<lparr>newClient := (newClient st)\<lparr>port := P\<rparr>, joplinPortFound := True\<rparr>)"
  using assms by (simp add: portFound_def)

lemma portFound_result:
  assumes "portFound token auth polls P st = Some st'"
  shows "port (newClient st') = P \<and> probedPorts (events st') = probedPorts (events st)
       \<and> (\<forall>rq. Sent rq \<in> set (events st') \<longrightarrow> Sent rq \<in> set (events st) \<or> Port rq = P)"
proof (cases "token = []")
  case False
  with assms show ?thesis
    by (auto simp add: portFound_token)
next
  case True
  let ?c = "(newClient st)\<lparr>port := P\<rparr>"
  let ?a = "getAuthToken ?c auth"
  have auth: "recv ?a = ?c" "probedPorts (trace ?a) = []"
    "\<forall>rq. Sent rq \<in> set (trace ?a) \<longrightarrow> Port rq = P"
    by (simp_all add: getAuthToken_def)
  show ?thesis
  proof (cases "err ?a")
    case (Some e)
    with assms True auth show ?thesis
      by (auto simp add: portFound_def Let_def probedPorts_append)
  next
    case None
    show ?thesis
    proof (cases "getApiToken ?c (ret ?a) polls")
      case None
      with assms True \<open>err ?a = None\<close> auth show ?thesis
        by (simp add: portFound_def Let_def)
    next
      case (Some t)
      then have "getApiToken_loop ?c (ret ?a) 0 [] polls = Some t"
        by (simp add: getApiToken_def)
      from poll_trace [OF this] have t: "recv t = ?c" "probedPorts (trace t) = []"
        "\<forall>rq. Sent rq \<in> set (trace t) \<longrightarrow> Port rq = P"
        by simp_all
      from assms True \<open>err ?a = None\<close> Some auth(1)
      have "st' = st\<lparr>newClient := (recv t)\<lparr>apiToken := ret t\<rparr>,
                      events := (events st @ trace ?a) @ trace t,
                      retErr := err t\<rparr>
          \<or> st' = st\<lparr>newClient := (recv t)\<lparr>apiToken := ret t\<rparr>,
                      events := (events st @ trace ?a) @ trace t,
                      joplinPortFound := True\<rparr>"
        by (auto simp add: portFound_def Let_def split: option.splits)
      with t auth show ?thesis
        by (auto simp add: probedPorts_append)
    qed
  qed
qed

lemma New_scan:
  assumes "joplinMinPortNum \<le> P" and "P \<le> joplinMaxPortNum"
    and "pingSucceeds (ping P)"
    and "\<forall>j. joplinMinPortNum \<le> j \<and> j < P \<longrightarrow> \<not> pingSucceeds (ping j)"
  shows "\<exists>e. New_loop token ping auth polls joplinMinPortNum
               \<lparr>newClient = \<lparr>port = 0, apiToken = token\<rparr>, retErr = None,
                joplinPortFound = False, events = []\<rparr>
           = portFound token auth polls P
               \<lparr>newClient = \<lparr>port = 0, apiToken = token\<rparr>, retErr = e,
                joplinPortFound = False,
                events = map (\<lambda>j. Sent (pingRequest j)) [joplinMinPortNum..<P + 1]\<rparr>"
proof -
  let ?st0 = "\<lparr>newClient = \<lparr>port = 0, apiToken = token\<rparr>, retErr = None,
               joplinPortFound = False, events = []\<rparr>"
  from New_loop_skip [OF assms(1,2,4)] obtain e where
    "New_loop token ping auth polls joplinMinPortNum ?st0
       = New_loop token ping auth polls P
           (?st0\<lparr>retErr := e,
                 events := events ?st0 @ map (\<lambda>j. Sent (pingRequest j)) [joplinMinPortNum..<P]\<rparr>)"
    by blast
  also have "\<dots> = portFound token auth polls P
           \<lparr>newClient = \<lparr>port = 0, apiToken = token\<rparr>, retErr = e,
            joplinPortFound = False,
            events = map (\<lambda>j. Sent (pingRequest j)) [joplinMinPortNum..<P + 1]\<rparr>"
    using assms(1) by (simp add: New_loop_found [where ping = ping and P = P, OF assms(2,3)])
  finally show ?thesis ..
qed

lemma New_pairing:
  assumes "joplinMinPortNum \<le> P" and "P \<le> joplinMaxPortNum"
    and "pingSucceeds (ping P)"
    and "\<forall>j. joplinMinPortNum \<le> j \<and> j < P \<longrightarrow> \<not> pingSucceeds (ping j)"
  shows "New [] ping auth polls
       = (case err (getAuthToken \<lparr>port = P, apiToken = []\<rparr> auth) of
            Some e \<Rightarrow>
              Some \<lparr>client = None, newErr = Some e,
                    newTrace = map (\<lambda>j. Sent (pingRequest j)) [joplinMinPortNum..<P + 1]
                               @ trace (getAuthToken \<lparr>port = P, apiToken = []\<rparr> auth)\<rparr>
          | None \<Rightarrow>
              (case getApiToken \<lparr>port = P, apiToken = []\<rparr>
                      (ret (getAuthToken \<lparr>port = P, apiToken = []\<rparr> auth)) polls of
                 None \<Rightarrow> None
               | Some t \<Rightarrow>
                   (case err t of
                      Some e \<Rightarrow>
                        Some \<lparr>client = None, newErr = Some e,
                              newTrace = map (\<lambda>j. Sent (pingRequest j)) [joplinMinPortNum..<P + 1]
                                         @ trace (getAuthToken \<lparr>port = P, apiToken = []\<rparr> auth)
                                         @ trace t\<rparr>
                    | None \<Rightarrow>
                        Some \<lparr>client = Some \<lparr>port = P, apiToken = ret t\<rparr>, newErr = None,
                              newTrace = map (\<lambda>j. Sent (pingRequest j)) [joplinMinPortNum..<P + 1]
                                         @ trace (getAuthToken \<lparr>port = P, apiToken = []\<rparr> auth)
                                         @ trace t\<rparr>)))"
proof -
  let ?c = "\<lparr>port = P, apiToken = []\<rparr>"
  let ?a = "getAuthToken ?c auth"
  from New_scan [OF assms] obtain e where
    scan: "New_loop [] ping auth polls joplinMinPortNum
               \<lparr>newClient = \<lparr>port = 0, apiToken = []\<rparr>, retErr = None,
                joplinPortFound = False, events = []\<rparr>
           = portFound [] auth polls P
               \<lparr>newClient = \<lparr>port = 0, apiToken = []\<rparr>, retErr = e,
                joplinPortFound = False,
                events = map (\<lambda>j. Sent (pingRequest j)) [joplinMinPortNum..<P + 1]\<rparr>"
    by blast
  have a: "recv ?a = ?c"
    by (simp add: getAuthToken_def)
  show ?thesis
  proof (cases "err ?a")
    case (Some e')
    then show ?thesis
      unfolding New_def scan by (simp add: portFound_def Let_def a del: upt_Suc)
  next
    case None
    show ?thesis
    proof (cases "getApiToken ?c (ret ?a) polls")
      case None
      with \<open>err ?a = None\<close> show ?thesis
        unfolding New_def scan by (simp add: portFound_def Let_def a del: upt_Suc)
    next
      case (Some t)
      then have "getApiToken_loop ?c (ret ?a) 0 [] polls = Some t"
        by (simp add: getApiToken_def)
      from poll_trace [OF this] have t: "recv t = ?c"
        by simp
      from Some \<open>err ?a = None\<close> show ?thesis
        unfolding New_def scan
        by (cases "err t") (simp_all add: portFound_def Let_def a t del: upt_Suc)
    qed
  qed
qed


lemma poll_accepted_after_waiting:
  assumes "\<forall>w\<in>set ws. waiting w" and "length ws + 1 \<le> 20"
    and "IsSuccess r" and "Status b = ''accepted''"
  shows "getApiToken c a (ws @ Reply r b # rest)
       = Some \<lparr>recv = c,
               trace = concat (replicate (length ws) [Sent (checkRequest c a), Slept 1])
                         @ [Sent (checkRequest c a)],
               ret = ApiToken b, err = None\<rparr>"
proof -
  have "getApiToken c a (ws @ Reply r b # rest) = getApiToken_loop c a 0 [] (ws @ Reply r b # rest)"
    by (simp add: getApiToken_def)
  also have "\<dots> = getApiToken_loop c a (0 + length ws)
           ([] @ concat (replicate (length ws) [Sent (checkRequest c a), Slept 1])) (Reply r b # rest)"
    by (rule poll_waiting_run [OF assms(1)]) (use assms(2) in \<open>simp add: retriesGetApiToken_def\<close>)
  also have "\<dots> = Some \<lparr>recv = c,
           trace = ([] @ concat (replicate (length ws) [Sent (checkRequest c a), Slept 1]))
                     @ [Sent (checkRequest c a)],
           ret = ApiToken b, err = None\<rparr>"
    using assms(3,4) by (rule poll_accepted)
  finally show ?thesis
    by (simp only: append_Nil)
qed

lemma New_paired:
  assumes "joplinMinPortNum \<le> P" and "P \<le> joplinMaxPortNum"
    and "pingSucceeds (ping P)"
    and "\<forall>j. joplinMinPortNum \<le> j \<and> j < P \<longrightarrow> \<not> pingSucceeds (ping j)"
    and "IsSuccess ra" and "\<forall>w\<in>set ws. waiting w" and "length ws + 1 \<le> 20"
    and "IsSuccess r" and "Status b = ''accepted''"
  shows "New [] ping (Reply ra authToken) (ws @ Reply r b # rest)
       = Some \<lparr>client = Some \<lparr>port = P, apiToken = ApiToken b\<rparr>, newErr = None,
               newTrace = map (\<lambda>j. Sent (pingRequest j)) [joplinMinPortNum..<P + 1]
                 @ [Sent \<lparr>Method = ''POST'', Port = P, Path = ''/auth'', PathParams = Map.empty,
                           QueryParams = Map.empty, Body = NoBody\<rparr>]
                 @ concat (replicate (length ws)
                     [Sent (checkRequest \<lparr>port = P, apiToken = []\<rparr> authToken), Slept 1])
                 @ [Sent (checkRequest \<lparr>port = P, apiToken = []\<rparr> authToken)]\<rparr>"
proof -
  have a: "getAuthToken \<lparr>port = P, apiToken = []\<rparr> (Reply ra authToken)
         = \<lparr>recv = \<lparr>port = P, apiToken = []\<rparr>,
            trace = [Sent \<lparr>Method = ''POST'', Port = P, Path = ''/auth'', PathParams = Map.empty,
                           QueryParams = Map.empty, Body = NoBody\<rparr>],
            ret = authToken, err = None\<rparr>"
    using assms(5) by (simp add: getAuthToken_def answer_def held_def success_not_error)
  show ?thesis
    unfolding New_pairing [OF assms(1-4)] a
    by (simp add: poll_accepted_after_waiting [OF assms(6-9)] del: upt_Suc)
qed

text \<open>
  Claim C5. Let \<open>P\<close> be the first port of the range 41184..41194 whose probe is answered
  with an HTTP success status. Then:
  \<^item> whenever \<^verbatim>\<open>New\<close> returns, the ports it probed are exactly \<open>41184, ..., P\<close> in ascending
    order, it sent no request of any kind to a port above \<open>P\<close>, and a client it returns
    has port \<open>P\<close>;
  \<^item> with a token supplied, \<^verbatim>\<open>New\<close> returns the client \<open>(P, token)\<close> with a nil error after
    these probes alone;
  \<^item> with no token, a successful \<^verbatim>\<open>/auth\<close> reply and polls that are accepted within the
    bound, \<^verbatim>\<open>New\<close> returns the client \<open>(P, accepted token)\<close> with a nil error, after the
    probes \<open>41184..P\<close> and the pairing requests, all of these sent to port \<open>P\<close>;
  \<^item> with no token in general, \<^verbatim>\<open>New\<close> is exactly the probes \<open>41184..P\<close> followed by the
    two pairing calls on a client with port \<open>P\<close>: it fails with the pairing error and no
    client if either call fails, and does not return if the polling does not.
\<close>

theorem C5_first_success_port_wins:
  assumes "joplinMinPortNum \<le> P" and "P \<le> joplinMaxPortNum"
    and "pingSucceeds (ping P)"
    and "\<forall>j. joplinMinPortNum \<le> j \<and> j < P \<longrightarrow> \<not> pingSucceeds (ping j)"
  shows "(\<forall>res. New token ping auth polls = Some res \<longrightarrow>
            probedPorts (newTrace res) = [joplinMinPortNum..<P + 1]
          \<and> (\<forall>rq. Sent rq \<in> set (newTrace res) \<longrightarrow> Port rq \<le> P)
          \<and> (\<forall>cl. client res = Some cl \<longrightarrow> port cl = P))
       \<and> (token \<noteq> [] \<longrightarrow>
            New token ping auth polls
          = Some \<lparr>client = Some \<lparr>port = P, apiToken = token\<rparr>, newErr = None,
                  newTrace = map (\<lambda>j. Sent (pingRequest j)) [joplinMinPortNum..<P + 1]\<rparr>)
       \<and> (IsSuccess ra \<and> (\<forall>w\<in>set ws. waiting w) \<and> length ws + 1 \<le> 20
            \<and> IsSuccess r \<and> Status b = ''accepted'' \<longrightarrow>
            New [] ping (Reply ra authToken) (ws @ Reply r b # rest)
          = Some \<lparr>client = Some \<lparr>port = P, apiToken = ApiToken b\<rparr>, newErr = None,
                  newTrace = map (\<lambda>j. Sent (pingRequest j)) [joplinMinPortNum..<P + 1]
                    @ [Sent \<lparr>Method = ''POST'', Port = P, Path = ''/auth'', PathParams = Map.empty,
                              QueryParams = Map.empty, Body = NoBody\<rparr>]
                    @ concat (replicate (length ws)
                        [Sent (checkRequest \<lparr>port = P, apiToken = []\<rparr> authToken), Slept 1])
                    @ [Sent (checkRequest \<lparr>port = P, apiToken = []\<rparr> authToken)]\<rparr>)
       \<and> New [] ping auth polls
          = (case err (getAuthToken \<lparr>port = P, apiToken = []\<rparr> auth) of
               Some e \<Rightarrow>
                 Some \<lparr>client = None, newErr = Some e,
                       newTrace = map (\<lambda>j. Sent (pingRequest j)) [joplinMinPortNum..<P + 1]
                                  @ trace (getAuthToken \<lparr>port = P, apiToken = []\<rparr> auth)\<rparr>
             | None \<Rightarrow>
                 (case getApiToken \<lparr>port = P, apiToken = []\<rparr>
                         (ret (getAuthToken \<lparr>port = P, apiToken = []\<rparr> auth)) polls of
                    None \<Rightarrow> None
                  | Some t \<Rightarrow>
                      (case err t of
                         Some e \<Rightarrow>
                           Some \<lparr>client = None, newErr = Some e,
                                 newTrace = map (\<lambda>j. Sent (pingRequest j)) [joplinMinPortNum..<P + 1]
                                            @ trace (getAuthToken \<lparr>port = P, apiToken = []\<rparr> auth)
                                            @ trace t\<rparr>
                       | None \<Rightarrow>
                           Some \<lparr>client = Some \<lparr>port = P, apiToken = ret t\<rparr>, newErr = None,
                                 newTrace = map (\<lambda>j. Sent (pingRequest j)) [joplinMinPortNum..<P + 1]
                                            @ trace (getAuthToken \<lparr>port = P, apiToken = []\<rparr> auth)
                                            @ trace t\<rparr>)))"
proof -
  let ?st0 = "\<lparr>newClient = \<lparr>port = 0, apiToken = token\<rparr>, retErr = None,
               joplinPortFound = False, events = []\<rparr>"
  from New_loop_skip [OF assms(1,2,4)] obtain e where
    "New_loop token ping auth polls joplinMinPortNum ?st0
       = New_loop token ping auth polls P
           (?st0\<lparr>retErr := e,
                 events := events ?st0 @ map (\<lambda>j. Sent (pingRequest j)) [joplinMinPortNum..<P]\<rparr>)"
    by blast
  also have "\<dots> = portFound token auth polls P
           (?st0\<lparr>retErr := e,
                 events := map (\<lambda>j. Sent (pingRequest j)) [joplinMinPortNum..<P + 1]\<rparr>)"
    using assms(1) by (simp add: New_loop_found [where ping = ping and P = P, OF assms(2,3)])
  finally have scan: "New_loop token ping auth polls joplinMinPortNum ?st0
       = portFound token auth polls P
           (?st0\<lparr>retErr := e,
                 events := map (\<lambda>j. Sent (pingRequest j)) [joplinMinPortNum..<P + 1]\<rparr>)"
    (is "_ = portFound _ _ _ _ ?st1") .
  have pings: "\<forall>rq. Sent rq \<in> set (events ?st1) \<longrightarrow> Port rq \<le> P"
    by (auto simp add: pingRequest_def)
  have first: "\<forall>res. New token ping auth polls = Some res \<longrightarrow>
            probedPorts (newTrace res) = [joplinMinPortNum..<P + 1]
          \<and> (\<forall>rq. Sent rq \<in> set (newTrace res) \<longrightarrow> Port rq \<le> P)
          \<and> (\<forall>cl. client res = Some cl \<longrightarrow> port cl = P)"
  proof (intro allI impI)
    fix res
    assume res: "New token ping auth polls = Some res"
    then obtain st' where st': "portFound token auth polls P ?st1 = Some st'"
      and shape: "res = (if \<not> joplinPortFound st'
                         then \<lparr>client = None, newErr = retErr st', newTrace = events st'\<rparr>
                         else \<lparr>client = Some (newClient st'), newErr = None, newTrace = events st'\<rparr>)"
      unfolding New_def scan by (auto split: option.splits if_splits)
    from portFound_result [OF st'] have
      a: "port (newClient st') = P" and
      b: "probedPorts (events st') = probedPorts (events ?st1)" and
      c: "\<forall>rq. Sent rq \<in> set (events st') \<longrightarrow> Sent rq \<in> set (events ?st1) \<or> Port rq = P"
      by blast+
    have tr: "newTrace res = events st'"
      using shape by (simp split: if_splits)
    have cl: "\<forall>cl. client res = Some cl \<longrightarrow> cl = newClient st'"
      using shape by (simp split: if_splits)
    from b have "probedPorts (newTrace res) = [joplinMinPortNum..<P + 1]"
      unfolding tr by (simp add: probedPorts_pings del: upt_Suc)
    moreover from c pings have "\<forall>rq. Sent rq \<in> set (newTrace res) \<longrightarrow> Port rq \<le> P"
      unfolding tr by (metis order_refl)
    moreover from a cl have "\<forall>cl. client res = Some cl \<longrightarrow> port cl = P"
      by auto
    ultimately show "probedPorts (newTrace res) = [joplinMinPortNum..<P + 1]
          \<and> (\<forall>rq. Sent rq \<in> set (newTrace res) \<longrightarrow> Port rq \<le> P)
          \<and> (\<forall>cl. client res = Some cl \<longrightarrow> port cl = P)"
      by blast
  qed
  have second: "token \<noteq> [] \<longrightarrow>
            New token ping auth polls
          = Some \<lparr>client = Some \<lparr>port = P, apiToken = token\<rparr>, newErr = None,
                  newTrace = map (\<lambda>j. Sent (pingRequest j)) [joplinMinPortNum..<P + 1]\<rparr>"
    unfolding New_def scan by (simp add: portFound_token del: upt_Suc)
  have paired: "IsSuccess ra \<and> (\<forall>w\<in>set ws. waiting w) \<and> length ws + 1 \<le> 20
            \<and> IsSuccess r \<and> Status b = ''accepted'' \<longrightarrow>
            New [] ping (Reply ra authToken) (ws @ Reply r b # rest)
          = Some \<lparr>client = Some \<lparr>port = P, apiToken = ApiToken b\<rparr>, newErr = None,
                  newTrace = map (\<lambda>j. Sent (pingRequest j)) [joplinMinPortNum..<P + 1]
                    @ [Sent \<lparr>Method = ''POST'', Port = P, Path = ''/auth'', PathParams = Map.empty,
                              QueryParams = Map.empty, Body = NoBody\<rparr>]
                    @ concat (replicate (length ws)
                        [Sent (checkRequest \<lparr>port = P, apiToken = []\<rparr> authToken), Slept 1])
                    @ [Sent (checkRequest \<lparr>port = P, apiToken = []\<rparr> authToken)]\<rparr>"
    using New_paired [OF assms] by blast
  from first second paired New_pairing [OF assms, of auth polls] show ?thesis
    by (simp only: simp_thms)
qed

theorem C5_first_success_port_wins_witness:
  "New ''tok''
     (\<lambda>i. if i = 41186 \<or> i = 41190 then Reply \<lparr>StatusCode = 200, Dump = [], ErrorText = []\<rparr> ()
           else Failure (Transport ''connection refused'') ())
     (Failure (Transport ''unused'') []) []
   = Some \<lparr>client = Some \<lparr>port = 41186, apiToken = ''tok''\<rparr>, newErr = None,
           newTrace = [Sent (pingRequest 41184), Sent (pingRequest 41185), Sent (pingRequest 41186)]\<rparr>
 \<and> New []
     (\<lambda>i. if i = 41186 \<or> i = 41190 then Reply \<lparr>StatusCode = 200, Dump = [], ErrorText = []\<rparr> ()
           else Failure (Transport ''connection refused'') ())
     (Reply \<lparr>StatusCode = 200, Dump = [], ErrorText = []\<rparr> ''auth'')
     [Reply \<lparr>StatusCode = 200, Dump = [], ErrorText = []\<rparr> \<lparr>Status = ''waiting'', ApiToken = []\<rparr>,
      Reply \<lparr>StatusCode = 200, Dump = [], ErrorText = []\<rparr> \<lparr>Status = ''accepted'', ApiToken = ''T''\<rparr>]
   = Some \<lparr>client = Some \<lparr>port = 41186, apiToken = ''T''\<rparr>, newErr = None,
           newTrace = [Sent (pingRequest 41184), Sent (pingRequest 41185), Sent (pingRequest 41186),
                       Sent \<lparr>Method = ''POST'', Port = 41186, Path = ''/auth'',
                             PathParams = Map.empty, QueryParams = Map.empty, Body = NoBody\<rparr>,
                       Sent (checkRequest \<lparr>port = 41186, apiToken = []\<rparr> ''auth''), Slept 1,
                       Sent (checkRequest \<lparr>port = 41186, apiToken = []\<rparr> ''auth'')]\<rparr>"
  using C5_first_success_port_wins
    [where P = 41186 and token = "''tok''"
       and ping = "\<lambda>i. if i = 41186 \<or> i = 41190
                        then Reply \<lparr>StatusCode = 200, Dump = [], ErrorText = []\<rparr> ()
                        else Failure (Transport ''connection refused'') ()"
       and auth = "Failure (Transport ''unused'') []" and polls = "[]"
       and ra = "\<lparr>StatusCode = 200, Dump = [], ErrorText = []\<rparr>" and authToken = "''auth''"
       and ws = "[Reply \<lparr>StatusCode = 200, Dump = [], ErrorText = []\<rparr>
                    \<lparr>Status = ''waiting'', ApiToken = []\<rparr>]"
       and r = "\<lparr>StatusCode = 200, Dump = [], ErrorText = []\<rparr>"
       and b = "\<lparr>Status = ''accepted'', ApiToken = ''T''\<rparr>" and rest = "[]"]
  by (simp add: joplinMinPortNum_def joplinMaxPortNum_def pingSucceeds_def IsSuccess_def
        waiting_def upt_rec)

section \<open>Query parameters of the list methods\<close>

lemma fetch_loop_Cons:
  "fetch_loop c mk onError q page acc tr (out # script)
 = (case answer onError out of
      Some e \<Rightarrow> Some \<lparr>recv = c, trace = tr @ [Sent (mk q)], ret = acc, err = Some e\<rparr>
    | None \<Rightarrow>
        if HasMore (held out) then
          fetch_loop c mk onError (q(''page'' \<mapsto> Itoa (page + 1))) (page + 1)
            (acc @ Items (held out)) (tr @ [Sent (mk q)]) script
        else Some \<lparr>recv = c, trace = tr @ [Sent (mk q)], ret = acc @ Items (held out),
                   err = None\<rparr>)"
  by (cases out) (simp_all add: answer_def held_def)

lemma fetch_loop_sent:
  assumes "fetch_loop c mk onError q page acc tr script = Some res"
  shows "recv res = c
       \<and> (\<forall>e\<in>set (trace res). e \<in> set tr
             \<or> (\<exists>q'. e = Sent (mk q') \<and> (\<forall>k. k \<noteq> ''page'' \<longrightarrow> q' k = q k)))"
  using assms
proof (induction script arbitrary: q page acc tr)
  case Nil
  then show ?case by simp
next
  case (Cons out script)
  show ?case
  proof (cases "answer onError out = None \<and> HasMore (held out)")
    case True
    with Cons.prems have "fetch_loop c mk onError (q(''page'' \<mapsto> Itoa (page + 1))) (page + 1)
               (acc @ Items (held out)) (tr @ [Sent (mk q)]) script = Some res"
      by (simp only: fetch_loop_Cons option.case if_True)
    from Cons.IH [OF this] have r: "recv res = c"
      and t: "\<forall>e\<in>set (trace res). e \<in> set (tr @ [Sent (mk q)])
             \<or> (\<exists>q'. e = Sent (mk q')
                    \<and> (\<forall>k. k \<noteq> ''page'' \<longrightarrow> q' k = (q(''page'' \<mapsto> Itoa (page + 1))) k))"
      by blast+
    have "e \<in> set tr \<or> (\<exists>q'. e = Sent (mk q') \<and> (\<forall>k. k \<noteq> ''page'' \<longrightarrow> q' k = q k))"
      if "e \<in> set (trace res)" for e
    proof -
      from t that consider "e \<in> set tr" | "e = Sent (mk q)"
        | q' where "e = Sent (mk q')"
            "\<forall>k. k \<noteq> ''page'' \<longrightarrow> q' k = (q(''page'' \<mapsto> Itoa (page + 1))) k"
        by auto
      then show ?thesis
      proof cases
        case 1
        then show ?thesis ..
      next
        case 2
        then show ?thesis by blast
      next
        case (3 q')
        then have "\<forall>k. k \<noteq> ''page'' \<longrightarrow> q' k = q k"
          by simp
        with 3(1) show ?thesis by blast
      qed
    qed
    with r show ?thesis by blast
  next
    case False
    with Cons.prems have "trace res = tr @ [Sent (mk q)] \<and> recv res = c"
      by (auto simp add: fetch_loop_Cons simp del: fetch_loop.simps split: option.splits if_splits)
    then show ?thesis by auto
  qed
qed

lemma fetch_loop_blind:
  "map_option (\<lambda>r. (ret r, err r)) (fetch_loop c mk onError q page acc tr script)
 = map_option (\<lambda>r. (ret r, err r)) (fetch_loop c mk' onError q' page' acc tr' script)"
proof (induction script arbitrary: q q' page page' acc tr tr')
  case Nil
  show ?case by simp
next
  case (Cons out script)
  show ?case
  proof (cases "answer onError out = None \<and> HasMore (held out)")
    case True
    then show ?thesis
      by (simp only: fetch_loop_Cons option.case if_True) (rule Cons.IH)
  next
    case False
    then show ?thesis
      by (auto simp add: fetch_loop_Cons simp del: fetch_loop.simps split: option.splits)
  qed
qed


lemma list_request_params:
  assumes "fetch_loop c (getRequest c path pp) onError q 1 [] [] script = Some res"
    and "Sent rq \<in> set (trace res)" and "k \<noteq> ''page''"
  shows "QueryParams rq k = q k"
proof -
  from fetch_loop_sent [OF assms(1)] assms(2)
  obtain q' where "Sent rq = Sent (getRequest c path pp q')"
    and "\<forall>k. k \<noteq> ''page'' \<longrightarrow> q' k = q k"
    by fastforce
  with assms(3) show ?thesis
    by (simp add: getRequest_def)
qed

lemma orderedParams_order_by:
  "orderedParams U c f ob od ''order_by'' = (if ob = [] then None else Some ob)"
  by (simp add: orderedParams_def Let_def)

lemma orderedParams_order_dir:
  "orderedParams U c f ob od ''order_dir'' = (if od = [] then None else Some (ToUpper U od))"
  by (simp add: orderedParams_def Let_def)

lemma searchParams_type:
  "searchParams c q qt f ''type'' = (if qt = [] then None else Some qt)"
  by (simp add: searchParams_def Let_def)

lemma searchParams_fields:
  "searchParams c q qt f ''fields'' = (if f = [] then None else Some f)"
  by (simp add: searchParams_def Let_def)

lemma ordered_passed:
  assumes "fetch_loop c (getRequest c path pp) onError (orderedParams U c f ob od) 1 [] [] script
             = Some res"
    and "Sent rq \<in> set (trace res)"
  shows "(od \<noteq> [] \<longrightarrow> QueryParams rq ''order_dir'' = Some (ToUpper U od))
       \<and> (ob \<noteq> [] \<longrightarrow> QueryParams rq ''order_by'' = Some ob)
       \<and> map_option (\<lambda>r. (ret r, err r))
           (fetch_loop c (getRequest c path pp) onError (orderedParams U c f ob' od') 1 [] [] script)
         = Some (ret res, err res)"
proof -
  have "QueryParams rq ''order_dir'' = orderedParams U c f ob od ''order_dir''"
    and "QueryParams rq ''order_by'' = orderedParams U c f ob od ''order_by''"
    using assms by (simp_all add: list_request_params)
  moreover have "map_option (\<lambda>r. (ret r, err r))
           (fetch_loop c (getRequest c path pp) onError (orderedParams U c f ob' od') 1 [] [] script)
         = map_option (\<lambda>r. (ret r, err r))
           (fetch_loop c (getRequest c path pp) onError (orderedParams U c f ob od) 1 [] [] script)"
    by (rule fetch_loop_blind)
  ultimately show ?thesis
    using assms(1) by (simp add: orderedParams_order_by orderedParams_order_dir)
qed

lemma ordered_omitted:
  assumes "fetch_loop c (getRequest c path pp) onError (orderedParams U c f ob od) 1 [] [] script
             = Some res"
    and "Sent rq \<in> set (trace res)"
  shows "(ob = [] \<longrightarrow> QueryParams rq ''order_by'' = None)
       \<and> (od = [] \<longrightarrow> QueryParams rq ''order_dir'' = None)"
proof -
  have "QueryParams rq ''order_dir'' = orderedParams U c f ob od ''order_dir''"
    and "QueryParams rq ''order_by'' = orderedParams U c f ob od ''order_by''"
    using assms by (simp_all add: list_request_params)
  then show ?thesis
    by (simp add: orderedParams_order_by orderedParams_order_dir)
qed

lemma search_omitted:
  assumes "Search c q qt f script = Some res" and "Sent rq \<in> set (trace res)"
  shows "(qt = [] \<longrightarrow> QueryParams rq ''type'' = None)
       \<and> (f = [] \<longrightarrow> QueryParams rq ''fields'' = None)"
proof -
  have "QueryParams rq ''type'' = searchParams c q qt f ''type''"
    and "QueryParams rq ''fields'' = searchParams c q qt f ''fields''"
    using assms unfolding Search_def by (simp_all add: list_request_params)
  then show ?thesis
    by (simp add: searchParams_type searchParams_fields)
qed

end
